theory Spec2Isabelle
  imports Main "HOL-Library.Word" "HOL-Library.AList"
begin

section \<open>Data model of the allocation runner\<close>

text \<open>
  The development embeds \<^verbatim>\<open>client/allocrunner/alloc_runner.go\<close>.

  Conventions of the embedding.
  \<^item> A Go \<^verbatim>\<open>map[string]*T\<close> is an association list \<open>(string \<times> T) list\<close>: lookup is
    \<open>map_of\<close>, a store is \<open>AList.update\<close>, and \<^verbatim>\<open>range\<close> visits the entries in
    list order. Go leaves the order of \<^verbatim>\<open>range\<close> open; the theorems hold for
    every list, hence for every order.
  \<^item> A pointer that the source tests against \<^verbatim>\<open>nil\<close> is an \<open>option\<close>; a pointer
    that the source dereferences without a test and that the runner itself always
    allocates (the values of the \<^verbatim>\<open>taskStates\<close> and \<^verbatim>\<open>tasks\<close> maps, the job of
    an allocation) is the value it points to.
  \<^item> A \<^verbatim>\<open>time.Time\<close> is a number of nanoseconds since Go's zero time, so
    \<^verbatim>\<open>IsZero\<close> is equality with \<open>0\<close>; \<^verbatim>\<open>time.Now()\<close> is an argument \<open>now\<close>.
\<close>

type_synonym time = int

definition IsZero :: "time \<Rightarrow> bool" where
  "IsZero t = (t = 0)"

text \<open>
  Modelled from the spec: the string constants of package \<^verbatim>\<open>structs\<close>, which is not
  part of the sources at hand. The spec names the task states \<open>pending\<close>, \<open>running\<close>,
  \<open>dead\<close>, the client statuses \<open>pending\<close>, \<open>running\<close>, \<open>complete\<close>, \<open>failed\<close>, and the
  event types \<open>TaskKilled\<close>, \<open>TaskSiblingFailed\<close>, \<open>TaskLeaderDead\<close>, \<open>TaskRestarting\<close>.
\<close>

definition TaskStatePending :: string where "TaskStatePending = ''pending''"
definition TaskStateRunning :: string where "TaskStateRunning = ''running''"
definition TaskStateDead :: string where "TaskStateDead = ''dead''"

definition AllocClientStatusPending :: string where "AllocClientStatusPending = ''pending''"
definition AllocClientStatusRunning :: string where "AllocClientStatusRunning = ''running''"
definition AllocClientStatusComplete :: string where "AllocClientStatusComplete = ''complete''"
definition AllocClientStatusFailed :: string where "AllocClientStatusFailed = ''failed''"

definition TaskKilled :: string where "TaskKilled = ''TaskKilled''"
definition TaskSiblingFailed :: string where "TaskSiblingFailed = ''TaskSiblingFailed''"
definition TaskLeaderDead :: string where "TaskLeaderDead = ''TaskLeaderDead''"
definition TaskRestarting :: string where "TaskRestarting = ''TaskRestarting''"

lemmas structs_consts =
  TaskStatePending_def TaskStateRunning_def TaskStateDead_def
  AllocClientStatusPending_def AllocClientStatusRunning_def
  AllocClientStatusComplete_def AllocClientStatusFailed_def
  TaskKilled_def TaskSiblingFailed_def TaskLeaderDead_def TaskRestarting_def

text \<open>
  \<^verbatim>\<open>structs.TaskEvent\<close>, with the fields the runner reads or sets: the event type,
  the \<^verbatim>\<open>int64\<close> Unix time in nanoseconds, whether the event fails the task, and the
  name of the failed sibling.
\<close>

record TaskEvent =
  Type :: string
  Time :: "64 word"
  FailsTask :: bool
  FailedSibling :: string

text \<open>
  Go's \<^verbatim>\<open>time.Unix(0, nsec)\<close> and \<^verbatim>\<open>Time.UnixNano()\<close>: the Unix epoch lies
  62135596800 seconds after the zero time, and the count of nanoseconds is an
  \<^verbatim>\<open>int64\<close>.
\<close>

definition unixToInternal :: int where
  "unixToInternal = 62135596800 * 1000000000"

definition Unix_nsec :: "64 word \<Rightarrow> time" where
  "Unix_nsec nsec = unixToInternal + sint nsec"

definition UnixNano :: "time \<Rightarrow> 64 word" where
  "UnixNano t = word_of_int (t - unixToInternal)"

text \<open>
  Modelled from the spec: \<^verbatim>\<open>structs.NewTaskEvent\<close> and \<^verbatim>\<open>SetFailedSibling\<close>, not part
  of the sources at hand: a new event has the given type and the time of its creation,
  and a sibling-failed event carries the name of the failed task.
\<close>

definition NewTaskEvent :: "time \<Rightarrow> string \<Rightarrow> TaskEvent" where
  "NewTaskEvent now event =
     \<lparr>Type = event, Time = UnixNano now, FailsTask = False, FailedSibling = ''''\<rparr>"

definition SetFailedSibling :: "string \<Rightarrow> TaskEvent \<Rightarrow> TaskEvent" where
  "SetFailedSibling sibling e = e\<lparr>FailedSibling := sibling\<rparr>"

text \<open>
  \<^verbatim>\<open>structs.TaskState\<close>. \<^verbatim>\<open>Restarts\<close> is a \<^verbatim>\<open>uint64\<close>; a \<^verbatim>\<open>nil\<close> slice of events
  and an empty one are both \<open>[]\<close>. \<open>emptyTaskState\<close> is Go's \<^verbatim>\<open>&structs.TaskState{}\<close>.
\<close>

record TaskState =
  State :: string
  Failed :: bool
  Restarts :: "64 word"
  LastRestart :: time
  StartedAt :: time
  FinishedAt :: time
  Events :: "TaskEvent list"

definition emptyTaskState :: TaskState where
  "emptyTaskState = \<lparr>State = '''', Failed = False, Restarts = 0, LastRestart = 0,
     StartedAt = 0, FinishedAt = 0, Events = []\<rparr>"

type_synonym task_states = "(string \<times> TaskState) list"

section \<open>The derived client status\<close>

text \<open>
  One turn of the loop of \<^verbatim>\<open>getClientStatus\<close>: the \<^verbatim>\<open>switch\<close> on the state of one
  task, acting on the four flags \<^verbatim>\<open>pending, running, dead, failed\<close>. A state that is
  none of the three constants sets no flag (the switch has no default).
\<close>

definition scanTaskState ::
  "TaskState \<Rightarrow> bool \<times> bool \<times> bool \<times> bool \<Rightarrow> bool \<times> bool \<times> bool \<times> bool" where
  "scanTaskState state = (\<lambda>(pending, running, dead, failed).
     if State state = TaskStateRunning then (pending, True, dead, failed)
     else if State state = TaskStatePending then (True, running, dead, failed)
     else if State state = TaskStateDead then
       (if Failed state then (pending, running, dead, True)
        else (pending, running, True, failed))
     else (pending, running, dead, failed))"

definition getClientStatus :: "task_states \<Rightarrow> string" where
  "getClientStatus taskStates =
     (case fold (\<lambda>(name, state). scanTaskState state) taskStates (False, False, False, False) of
        (pending, running, dead, failed) \<Rightarrow>
          if failed then AllocClientStatusFailed
          else if running then AllocClientStatusRunning
          else if pending then AllocClientStatusPending
          else if dead then AllocClientStatusComplete
          else '''')"

text \<open>
  The precedence cascade in the words of the specification, to be compared with the
  loop above: failed, else running, else pending, else complete, else the empty string.
\<close>

definition anyTask :: "(TaskState \<Rightarrow> bool) \<Rightarrow> task_states \<Rightarrow> bool" where
  "anyTask P taskStates = list_ex (\<lambda>(name, state). P state) taskStates"

definition clientStatusSpec :: "task_states \<Rightarrow> string" where
  "clientStatusSpec taskStates =
     (if anyTask (\<lambda>s. State s = TaskStateDead \<and> Failed s) taskStates then AllocClientStatusFailed
      else if anyTask (\<lambda>s. State s = TaskStateRunning) taskStates then AllocClientStatusRunning
      else if anyTask (\<lambda>s. State s = TaskStatePending) taskStates then AllocClientStatusPending
      else if anyTask (\<lambda>s. State s = TaskStateDead) taskStates then AllocClientStatusComplete
      else '''')"

section \<open>The bounded list of task events\<close>

text \<open>
  \<^verbatim>\<open>appendTaskEvent\<close>: at exactly \<^verbatim>\<open>capacity\<close> events the list is replaced by
  \<^verbatim>\<open>old[1:]\<close> before the new event is appended. The receiver is not used.
\<close>

definition appendTaskEvent :: "TaskState \<Rightarrow> TaskEvent \<Rightarrow> TaskState" where
  "appendTaskEvent state event =
     (let capacity = 10;
          events = (if length (Events state) = capacity then drop 1 (Events state)
                    else Events state)
      in state\<lparr>Events := events @ [event]\<rparr>)"

text \<open>A sequence of calls on one task state, in the order of the list.\<close>

definition appendTaskEvents :: "TaskState \<Rightarrow> TaskEvent list \<Rightarrow> TaskState" where
  "appendTaskEvents state events = foldl appendTaskEvent state events"

section \<open>Jobs, allocations and collaborators\<close>

text \<open>
  \<^verbatim>\<open>structs.Task\<close>, \<^verbatim>\<open>structs.TaskGroup\<close> and \<^verbatim>\<open>structs.Job\<close>, with the fields the
  runner reads.
\<close>

record Task =
  Name :: string
  Leader :: bool

record TaskGroup =
  GroupName :: string
  Tasks :: "Task list"

record Job =
  JobName :: string
  TaskGroups :: "TaskGroup list"

text \<open>
  Modelled from the spec: \<^verbatim>\<open>Job.LookupTaskGroup\<close> of package \<^verbatim>\<open>structs\<close>, not part of
  the sources at hand. The spec has the runner resolve the task group by its name and
  handle a miss; a miss is Go's \<^verbatim>\<open>nil\<close>.
\<close>

definition LookupTaskGroup :: "Job \<Rightarrow> string \<Rightarrow> TaskGroup option" where
  "LookupTaskGroup job name = find (\<lambda>tg. GroupName tg = name) (TaskGroups job)"

record AllocDeploymentStatus =
  Healthy :: "bool option"
  Timestamp :: time

text \<open>
  Modelled from the spec: \<^verbatim>\<open>AllocDeploymentStatus.IsUnhealthy\<close> (the deployment
  status is already unhealthy), callable on a \<^verbatim>\<open>nil\<close> status.
\<close>

definition IsUnhealthy :: "AllocDeploymentStatus option \<Rightarrow> bool" where
  "IsUnhealthy ds = (case ds of None \<Rightarrow> False | Some d \<Rightarrow> Healthy d = Some False)"

record Allocation =
  ID :: string
  EvalID :: string
  TaskGroup :: string
  AllocJob :: Job
  DeploymentID :: string
  DeploymentStatus :: "AllocDeploymentStatus option"
  ClientStatus :: string
  ClientDescription :: string
  TaskStates :: task_states

text \<open>
  Modelled from the spec: \<^verbatim>\<open>Allocation.ClientTerminalStatus\<close> and
  \<^verbatim>\<open>Allocation.TerminalStatus\<close> of package \<^verbatim>\<open>structs\<close>. The glossary of the spec
  defines terminal as a client status of \<open>complete\<close> or \<open>failed\<close>.
\<close>

definition ClientTerminalStatus :: "Allocation \<Rightarrow> bool" where
  "ClientTerminalStatus a =
     (ClientStatus a = AllocClientStatusComplete \<or> ClientStatus a = AllocClientStatusFailed)"

definition TerminalStatus :: "Allocation \<Rightarrow> bool" where
  "TerminalStatus a = ClientTerminalStatus a"

text \<open>
  \<^verbatim>\<open>copyTaskStates\<close> builds a new map with a deep copy of every task state; on values
  the copy is the map itself.
\<close>

definition copyTaskStates :: "task_states \<Rightarrow> task_states" where
  "copyTaskStates states = map (\<lambda>(task, state). (task, state)) states"

text \<open>
  Modelled from the spec: the task runner of package \<^verbatim>\<open>taskrunner\<close>, a collaborator
  that is not part of the sources at hand. Of its contract (\<^verbatim>\<open>Run\<close>, \<^verbatim>\<open>Restart\<close>,
  \<^verbatim>\<open>Destroy\<close>, \<^verbatim>\<open>RestoreState\<close>, \<^verbatim>\<open>MarkReceived\<close>, \<^verbatim>\<open>IsLeader\<close>) the model keeps the
  task it supervises and the list of the calls it has received, oldest first.
\<close>

datatype runner_call =
    CallRun
  | CallRestart string string bool
  | CallDestroy TaskEvent
  | CallRestoreState
  | CallMarkReceived

record TaskRunner =
  task :: Task
  calls :: "runner_call list"

definition NewTaskRunner :: "Task \<Rightarrow> TaskRunner" where
  "NewTaskRunner t = \<lparr>task = t, calls = []\<rparr>"

definition IsLeader :: "TaskRunner \<Rightarrow> bool" where
  "IsLeader tr = Leader (task tr)"

definition received :: "runner_call \<Rightarrow> TaskRunner \<Rightarrow> TaskRunner" where
  "received c tr = tr\<lparr>calls := calls tr @ [c]\<rparr>"

definition Destroy_runner :: "TaskEvent \<Rightarrow> TaskRunner \<Rightarrow> TaskRunner" where
  "Destroy_runner event tr = received (CallDestroy event) tr"

text \<open>
  Modelled from the spec: the allocation directory of package \<^verbatim>\<open>allocdir\<close>, not part
  of the sources at hand: a path and the task directories by task name.
  \<^verbatim>\<open>NewTaskDir\<close> registers the directory of a task and returns it.
\<close>

record AllocDir =
  AllocDirPath :: string
  TaskDirs :: "(string \<times> string) list"

definition NewAllocDir :: "string \<Rightarrow> AllocDir" where
  "NewAllocDir path = \<lparr>AllocDirPath = path, TaskDirs = []\<rparr>"

definition NewTaskDir :: "string \<Rightarrow> AllocDir \<Rightarrow> string \<times> AllocDir" where
  "NewTaskDir name d =
     (let td = AllocDirPath d @ ''/'' @ name
      in (td, d\<lparr>TaskDirs := AList.update name td (TaskDirs d)\<rparr>))"

section \<open>The state store\<close>

text \<open>The four keys of an allocation's bucket, as the source declares them.\<close>

definition allocRunnerStateAllocKey :: string where
  "allocRunnerStateAllocKey = ''alloc''"
definition allocRunnerStateImmutableKey :: string where
  "allocRunnerStateImmutableKey = ''immutable''"
definition allocRunnerStateMutableKey :: string where
  "allocRunnerStateMutableKey = ''mutable''"
definition allocRunnerStateAllocDirKey :: string where
  "allocRunnerStateAllocDirKey = ''alloc-dir''"

lemmas state_keys =
  allocRunnerStateAllocKey_def allocRunnerStateImmutableKey_def
  allocRunnerStateMutableKey_def allocRunnerStateAllocDirKey_def

text \<open>
  The objects stored under the keys: \<^verbatim>\<open>allocRunnerAllocState\<close> (a pointer to an
  allocation, possibly \<^verbatim>\<open>nil\<close>), \<^verbatim>\<open>allocRunnerImmutableState\<close> (the version),
  \<^verbatim>\<open>allocRunnerMutableState\<close> (client status, description, task states, deployment
  status) and the allocation directory.
\<close>

datatype obj =
    AllocState "Allocation option"
  | ImmutableState string
  | MutableState string string task_states "AllocDeploymentStatus option"
  | AllocDirState AllocDir

type_synonym bucket = "string \<rightharpoonup> obj"

text \<open>
  Modelled from the spec: the key-value store (package \<^verbatim>\<open>state\<close> over bolt, not part
  of the sources at hand): one bucket per allocation id, a transaction either commits
  all of its writes or none. \<open>writeLog\<close> is not in the source: it lists every committed
  write as (allocation id, key), oldest first, the way a spy store counts writes.
\<close>

record boltDB =
  buckets :: "string \<rightharpoonup> bucket"
  writeLog :: "(string \<times> string) list"

text \<open>
  A write transaction in progress: the writes made so far and the callbacks registered
  with \<^verbatim>\<open>tx.OnCommit\<close>, both oldest first. The three closures the source registers are
  the three constructors of \<open>commit_action\<close>.
\<close>

datatype commit_action =
    SetPersistedEval string
  | SetImmutablePersisted
  | SetAllocDirPersisted

record tx =
  puts :: "(string \<times> obj) list"
  commitHandlers :: "commit_action list"

definition emptyTx :: tx where
  "emptyTx = \<lparr>puts = [], commitHandlers = []\<rparr>"

text \<open>
  What the store does to one transaction, which the runner does not decide:
  whether the bucket can be had, at which keys \<^verbatim>\<open>PutObject\<close> fails, and whether the
  commit fails.
\<close>

record tx_env =
  bucketErr :: bool
  putErr :: "string set"
  commitErr :: bool

text \<open>
  Errors are values: an \<^verbatim>\<open>error\<close> returned by the source carries the constant part of
  its message; a panic (a \<^verbatim>\<open>nil\<close> dereference) ends the process. \<open>andThen\<close> is the
  early return on an error.
\<close>

datatype error = Error string | Panic

definition andThen :: "error + 'a \<Rightarrow> ('a \<Rightarrow> error + 'b) \<Rightarrow> error + 'b" where
  "andThen m f = (case m of Inl e \<Rightarrow> Inl e | Inr x \<Rightarrow> f x)"

text \<open>
  Modelled from the spec: \<^verbatim>\<open>state.PutObject\<close>, \<^verbatim>\<open>tx.OnCommit\<close> and the commit of a
  transaction, not part of the sources at hand. A write fails with the message of the
  caller or is added to the transaction; a callback is added to the transaction; the
  commit stores the writes in the bucket of the allocation, which it creates if need
  be, and logs them.
\<close>

definition PutObject :: "tx_env \<Rightarrow> string \<Rightarrow> obj \<Rightarrow> string \<Rightarrow> tx \<Rightarrow> error + tx" where
  "PutObject env key v msg t =
     (if key \<in> putErr env then Inl (Error msg)
      else Inr (t\<lparr>puts := puts t @ [(key, v)]\<rparr>))"

definition OnCommit :: "commit_action \<Rightarrow> tx \<Rightarrow> tx" where
  "OnCommit c t = t\<lparr>commitHandlers := commitHandlers t @ [c]\<rparr>"

definition commitPuts :: "string \<Rightarrow> (string \<times> obj) list \<Rightarrow> boltDB \<Rightarrow> boltDB" where
  "commitPuts allocID ps db =
     (let bkt = (case buckets db allocID of None \<Rightarrow> Map.empty | Some b \<Rightarrow> b)
      in db\<lparr>buckets := (buckets db)(allocID \<mapsto> fold (\<lambda>(k, v) b. b(k \<mapsto> v)) ps bkt),
            writeLog := writeLog db @ map (\<lambda>(k, v). (allocID, k)) ps\<rparr>)"

section \<open>The allocation runner\<close>

text \<open>
  The fields of \<^verbatim>\<open>AllocRunner\<close>. The logger is the list of lines printed, the context
  is whether it has been cancelled, the channel \<^verbatim>\<open>dirtyCh\<close> of capacity 1 is whether a
  signal is buffered, the channel \<^verbatim>\<open>updateCh\<close> is the queue of buffered updates, the
  broadcaster is whether it has been closed, and of the configuration the runner keeps
  the version number. Locks, metrics, the wait channel and the Vault and Consul clients
  have no part in the sequential model. The allocation is never \<^verbatim>\<open>nil\<close> when read:
  \<^verbatim>\<open>NewAllocRunner\<close> dereferences it and \<^verbatim>\<open>RestoreState\<close> panics on a \<^verbatim>\<open>nil\<close> one.
  A \<^verbatim>\<open>nil\<close> map and an empty map are both the empty list: the maps of a runner are
  made by \<^verbatim>\<open>NewAllocRunner\<close> or decoded from a stored map, and a store into a
  \<^verbatim>\<open>nil\<close> map is not modelled.
\<close>

record AllocRunner =
  configVersion :: string
  logger :: "string list"
  allocID :: string
  alloc :: Allocation
  allocClientStatus :: string
  allocClientDescription :: string
  allocHealth :: "bool option"
  allocHealthTime :: time
  allocBroadcastClosed :: bool
  dirtyCh :: bool
  allocDir :: "AllocDir option"
  tasks :: "(string \<times> TaskRunner) list"
  taskStates :: task_states
  restored :: "string set"
  updateCh :: "Allocation list"
  ctxCanceled :: bool
  stateDB :: boltDB
  persistedEval :: string
  immutablePersisted :: bool
  allocDirPersisted :: bool

definition updateChCap :: nat where
  "updateChCap = 64"

definition NewAllocRunner :: "string \<Rightarrow> string \<Rightarrow> boltDB \<Rightarrow> Allocation \<Rightarrow> AllocRunner" where
  "NewAllocRunner version allocDirRoot db a =
     \<lparr>configVersion = version,
      logger = [],
      allocID = ID a,
      alloc = a,
      allocClientStatus = '''',
      allocClientDescription = '''',
      allocHealth = None,
      allocHealthTime = 0,
      allocBroadcastClosed = False,
      dirtyCh = False,
      allocDir = Some (NewAllocDir (allocDirRoot @ ''/'' @ ID a)),
      tasks = [],
      taskStates = copyTaskStates (TaskStates a),
      restored = {},
      updateCh = [],
      ctxCanceled = False,
      stateDB = db,
      persistedEval = '''',
      immutablePersisted = False,
      allocDirPersisted = False\<rparr>"

section \<open>Snapshots of the allocation\<close>

text \<open>
  One turn of the loop of \<^verbatim>\<open>finalizeTerminalAlloc\<close>: the task gets an entry if it
  has none, and the entry gets the finishing time \<open>now\<close> if it has none.
\<close>

definition finishTask :: "time \<Rightarrow> Task \<Rightarrow> task_states \<Rightarrow> task_states" where
  "finishTask now t states =
     (let ts = (case map_of states (Name t) of None \<Rightarrow> emptyTaskState | Some ts \<Rightarrow> ts)
      in AList.update (Name t)
           (if IsZero (FinishedAt ts) then ts\<lparr>FinishedAt := now\<rparr> else ts) states)"

text \<open>
  \<^verbatim>\<open>finalizeTerminalAlloc\<close> returns at once unless the client status of the snapshot
  is terminal. Otherwise it looks the task group up and reads \<^verbatim>\<open>group.Tasks\<close>
  without testing the group: on a miss that is a \<^verbatim>\<open>nil\<close> dereference. It changes
  the task states of the runner and stores a copy of them in the snapshot.
\<close>

definition finalizeTerminalAlloc ::
  "time \<Rightarrow> Allocation \<Rightarrow> AllocRunner \<Rightarrow> error + (Allocation \<times> AllocRunner)" where
  "finalizeTerminalAlloc now a r =
     (if \<not> ClientTerminalStatus a then Inr (a, r)
      else case LookupTaskGroup (AllocJob a) (TaskGroup a) of
             None \<Rightarrow> Inl Panic
           | Some tg \<Rightarrow>
               let states = fold (finishTask now) (Tasks tg) (taskStates r)
               in Inr (a\<lparr>TaskStates := copyTaskStates states\<rparr>, r\<lparr>taskStates := states\<rparr>))"

text \<open>
  \<^verbatim>\<open>Alloc\<close> composes the snapshot: a copy of the allocation, then either the explicit
  status and description, or the health, the derived client status and the unhealthy
  mark of a failed allocation of a deployment; in both cases the task states. Both
  paths of the source end with \<^verbatim>\<open>finalizeTerminalAlloc\<close> on the snapshot composed so
  far, which is \<open>composeAlloc\<close>.
\<close>

definition composeAlloc :: "AllocRunner \<Rightarrow> Allocation" where
  "composeAlloc r =
     (if allocClientStatus r \<noteq> '''' \<or> allocClientDescription r \<noteq> '''' then
        (alloc r)\<lparr>ClientStatus := allocClientStatus r,
                   ClientDescription := allocClientDescription r,
                   TaskStates := copyTaskStates (taskStates r)\<rparr>
      else
        let a1 = (case allocHealth r of
                    None \<Rightarrow> alloc r
                  | Some h \<Rightarrow>
                      (alloc r)\<lparr>DeploymentStatus := Some
                        ((case DeploymentStatus (alloc r) of
                            None \<Rightarrow> \<lparr>Healthy = None, Timestamp = 0\<rparr>
                          | Some ds \<Rightarrow> ds)\<lparr>Healthy := Some h, Timestamp := allocHealthTime r\<rparr>)\<rparr>);
            a2 = a1\<lparr>TaskStates := copyTaskStates (taskStates r),
                    ClientStatus := getClientStatus (taskStates r)\<rparr>
        in if ClientStatus a2 = AllocClientStatusFailed \<and> DeploymentID a2 \<noteq> '''' \<and>
              \<not> IsUnhealthy (DeploymentStatus a2)
           then a2\<lparr>DeploymentStatus := Some \<lparr>Healthy = Some False, Timestamp = 0\<rparr>\<rparr>
           else a2)"

definition Alloc :: "time \<Rightarrow> AllocRunner \<Rightarrow> error + (Allocation \<times> AllocRunner)" where
  "Alloc now r = finalizeTerminalAlloc now (composeAlloc r) r"

text \<open>
  What \<^verbatim>\<open>finalizeTerminalAlloc\<close> is to achieve, in the words of the specification: a
  task state with its finishing time set to \<open>now\<close> if it was zero, and the state of a
  task, the empty one if the task has none.
\<close>

definition finished :: "time \<Rightarrow> TaskState \<Rightarrow> TaskState" where
  "finished now ts = (if IsZero (FinishedAt ts) then ts\<lparr>FinishedAt := now\<rparr> else ts)"

definition stateOrEmpty :: "task_states \<Rightarrow> string \<Rightarrow> TaskState" where
  "stateOrEmpty states name =
     (case map_of states name of None \<Rightarrow> emptyTaskState | Some ts \<Rightarrow> ts)"

section \<open>Setting the status of the allocation and of a task\<close>

definition setStatus :: "string \<Rightarrow> string \<Rightarrow> AllocRunner \<Rightarrow> AllocRunner" where
  "setStatus status desc r =
     r\<lparr>allocClientStatus := status, allocClientDescription := desc, dirtyCh := True\<rparr>"

text \<open>
  The part of \<^verbatim>\<open>setTaskState\<close> that records an event: the failure flag, the restart
  accounting and the event list.
\<close>

definition recordEvent :: "TaskEvent \<Rightarrow> TaskState \<Rightarrow> TaskState" where
  "recordEvent event ts =
     (let ts1 = (if FailsTask event then ts\<lparr>Failed := True\<rparr> else ts);
          ts2 = (if Type event = TaskRestarting
                 then ts1\<lparr>Restarts := Restarts ts1 + 1, LastRestart := Unix_nsec (Time event)\<rparr>
                 else ts1)
      in appendTaskEvent ts2 event)"

text \<open>
  The loop over \<^verbatim>\<open>r.tasks\<close> in the \<^verbatim>\<open>dead\<close> case: the runners of the other tasks
  (here their names), and whether the runner registered under the name of the dead task
  is a leader. \<open>destroyOthers\<close> is the loop that calls \<^verbatim>\<open>Destroy\<close> on each of the other
  runners; each runner records the call.
\<close>

definition otherTaskNames :: "string \<Rightarrow> (string \<times> TaskRunner) list \<Rightarrow> string list" where
  "otherTaskNames taskName trs = map fst (filter (\<lambda>(t, tr). t \<noteq> taskName) trs)"

definition isLeaderTask :: "string \<Rightarrow> (string \<times> TaskRunner) list \<Rightarrow> bool" where
  "isLeaderTask taskName trs = list_ex (\<lambda>(t, tr). t = taskName \<and> IsLeader tr) trs"

definition destroyOthers ::
  "string \<Rightarrow> TaskEvent \<Rightarrow> (string \<times> TaskRunner) list \<Rightarrow> (string \<times> TaskRunner) list" where
  "destroyOthers taskName event trs =
     map (\<lambda>(t, tr). if t \<noteq> taskName then (t, Destroy_runner event tr) else (t, tr)) trs"

text \<open>The state that a call records: the one passed, or the last known one, or pending.\<close>

definition stateToRecord :: "string \<Rightarrow> TaskState \<Rightarrow> string" where
  "stateToRecord state taskState =
     (if state = '''' then
        (if State taskState = '''' then TaskStatePending else State taskState)
      else state)"

text \<open>
  The first part of \<^verbatim>\<open>setTaskState\<close>: the state of the task is fetched, or created
  empty, and the event, if there is one, is recorded in it.
\<close>

definition recordedTaskState :: "string \<Rightarrow> TaskEvent option \<Rightarrow> AllocRunner \<Rightarrow> TaskState" where
  "recordedTaskState taskName event r =
     (let taskState = (case map_of (taskStates r) taskName of
                         None \<Rightarrow> emptyTaskState | Some ts \<Rightarrow> ts)
      in case event of None \<Rightarrow> taskState | Some e \<Rightarrow> recordEvent e taskState)"

text \<open>
  \<^verbatim>\<open>setTaskState\<close>. The clock is read once per call. The task state is fetched or
  created, the event recorded; a lazy call ends there. Otherwise the \<^verbatim>\<open>switch\<close>
  handles \<open>running\<close> (start time) and \<open>dead\<close> (finish time, then the other runners are
  destroyed if the task failed, else if it is the leader), the state is stored and the
  dirty channel is signalled.
\<close>

definition setTaskState ::
  "time \<Rightarrow> string \<Rightarrow> string \<Rightarrow> TaskEvent option \<Rightarrow> bool \<Rightarrow> AllocRunner \<Rightarrow> AllocRunner" where
  "setTaskState now taskName state event lazySync r =
     (let taskState1 = recordedTaskState taskName event r
      in if lazySync then r\<lparr>taskStates := AList.update taskName taskState1 (taskStates r)\<rparr>
         else
           let state1 = stateToRecord state taskState1 in
           if state1 = TaskStateRunning then
             let taskState2 = (if State taskState1 \<noteq> TaskStateRunning
                               then taskState1\<lparr>StartedAt := now\<rparr> else taskState1)
             in r\<lparr>taskStates := AList.update taskName (taskState2\<lparr>State := state1\<rparr>) (taskStates r),
                  dirtyCh := True\<rparr>
           else if state1 = TaskStateDead then
             let taskState2 = (if IsZero (FinishedAt taskState1)
                               then taskState1\<lparr>FinishedAt := now\<rparr> else taskState1);
                 others = otherTaskNames taskName (tasks r);
                 leader = isLeaderTask taskName (tasks r);
                 r1 = (if Failed taskState2 then
                         r\<lparr>tasks := destroyOthers taskName
                                      (SetFailedSibling taskName (NewTaskEvent now TaskSiblingFailed))
                                      (tasks r),
                           logger := logger r @
                             (if others \<noteq> []
                              then [''[DEBUG] client: task failed, destroying other tasks in task group'']
                              else [])\<rparr>
                       else if leader then
                         r\<lparr>tasks := destroyOthers taskName (NewTaskEvent now TaskLeaderDead) (tasks r),
                           logger := logger r @
                             (if others \<noteq> []
                              then [''[DEBUG] client: leader task is dead, destroying other tasks in task group'']
                              else [])\<rparr>
                       else r)
             in r1\<lparr>taskStates := AList.update taskName (taskState2\<lparr>State := state1\<rparr>) (taskStates r),
                   dirtyCh := True\<rparr>
           else
             r\<lparr>taskStates := AList.update taskName (taskState1\<lparr>State := state1\<rparr>) (taskStates r),
               dirtyCh := True\<rparr>)"

section \<open>Persistence\<close>

text \<open>
  The closure that \<^verbatim>\<open>saveAllocRunnerState\<close> hands to \<^verbatim>\<open>Batch\<close>, in the order of the
  source: the bucket; the allocation if the evaluation changed; the immutable data if
  not yet persisted; the directory if not yet persisted and not \<^verbatim>\<open>nil\<close>; the mutable
  data. The first error ends it.
\<close>

definition saveTx ::
  "tx_env \<Rightarrow> AllocRunner \<Rightarrow> Allocation \<Rightarrow> string \<Rightarrow> string \<Rightarrow> AllocDir option \<Rightarrow> error + tx" where
  "saveTx env r a status desc dir =
     (if bucketErr env then Inl (Error ''failed to retrieve allocation bucket'')
      else
        andThen
          (if EvalID a \<noteq> persistedEval r then
             andThen
               (PutObject env allocRunnerStateAllocKey (AllocState (Some a))
                  ''failed to write alloc_runner alloc state'' emptyTx)
               (\<lambda>t. Inr (OnCommit (SetPersistedEval (EvalID a)) t))
           else Inr emptyTx)
        (\<lambda>t1. andThen
          (if \<not> immutablePersisted r then
             andThen
               (PutObject env allocRunnerStateImmutableKey (ImmutableState (configVersion r))
                  ''failed to write alloc_runner immutable state'' t1)
               (\<lambda>t. Inr (OnCommit SetImmutablePersisted t))
           else Inr t1)
        (\<lambda>t2. andThen
          (case dir of
             Some d \<Rightarrow>
               if \<not> allocDirPersisted r then
                 andThen
                   (PutObject env allocRunnerStateAllocDirKey (AllocDirState d)
                      ''failed to write alloc_runner allocDir state'' t2)
                   (\<lambda>t. Inr (OnCommit SetAllocDirPersisted t))
               else Inr t2
           | None \<Rightarrow> Inr t2)
        (\<lambda>t3. PutObject env allocRunnerStateMutableKey
                 (MutableState status desc (TaskStates a) (DeploymentStatus a))
                 ''failed to write alloc_runner mutable state'' t3))))"

fun commitHandler :: "commit_action \<Rightarrow> AllocRunner \<Rightarrow> AllocRunner" where
  "commitHandler (SetPersistedEval e) r = r\<lparr>persistedEval := e\<rparr>"
| "commitHandler SetImmutablePersisted r = r\<lparr>immutablePersisted := True\<rparr>"
| "commitHandler SetAllocDirPersisted r = r\<lparr>allocDirPersisted := True\<rparr>"

text \<open>
  Modelled from the spec: \<^verbatim>\<open>Batch\<close> of the store. A closure that returns an error
  aborts the transaction: nothing is written and no callback runs. Otherwise the
  writes are committed and the callbacks run, unless the commit itself fails.
\<close>

definition Batch :: "tx_env \<Rightarrow> error + tx \<Rightarrow> AllocRunner \<Rightarrow> error option \<times> AllocRunner" where
  "Batch env body r =
     (case body of
        Inl e \<Rightarrow> (Some e, r)
      | Inr t \<Rightarrow>
          if commitErr env then (Some (Error ''commit failed''), r)
          else (None, fold commitHandler (commitHandlers t)
                        (r\<lparr>stateDB := commitPuts (allocID r) (puts t) (stateDB r)\<rparr>)))"

text \<open>
  \<^verbatim>\<open>saveAllocRunnerState\<close>: nothing once the context is cancelled; otherwise the
  snapshot, the explicit status, the copy of the directory, and the transaction.
\<close>

definition saveAllocRunnerState :: "tx_env \<Rightarrow> time \<Rightarrow> AllocRunner \<Rightarrow> error option \<times> AllocRunner" where
  "saveAllocRunnerState env now r =
     (if ctxCanceled r then (None, r)
      else case Alloc now r of
             Inl e \<Rightarrow> (Some e, r)
           | Inr (a, r1) \<Rightarrow>
               Batch env
                 (saveTx env r1 a (allocClientStatus r1) (allocClientDescription r1) (allocDir r1))
                 r1)"

text \<open>The writes that a call has committed: the entries it added to the log.\<close>

definition written :: "AllocRunner \<Rightarrow> AllocRunner \<Rightarrow> string list" where
  "written r r' =
     map snd (drop (length (writeLog (stateDB r))) (writeLog (stateDB r')))"

section \<open>Updates and destruction\<close>

text \<open>
  \<^verbatim>\<open>Update\<close>: a \<^verbatim>\<open>select\<close> with a send on \<^verbatim>\<open>updateCh\<close> and a \<^verbatim>\<open>default\<close>. The send
  is taken when the buffer has room; otherwise the default logs the drop.
\<close>

definition Update :: "Allocation \<Rightarrow> AllocRunner \<Rightarrow> AllocRunner" where
  "Update upd r =
     (if length (updateCh r) < updateChCap then r\<lparr>updateCh := updateCh r @ [upd]\<rparr>
      else r\<lparr>logger := logger r @
          [''[ERR] client: dropping update to alloc '' @ [CHR 0x27] @ ID upd @ [CHR 0x27]]\<rparr>)"

definition Destroy :: "AllocRunner \<Rightarrow> AllocRunner" where
  "Destroy r = r\<lparr>ctxCanceled := True, allocBroadcastClosed := True\<rparr>"

section \<open>Restoring the runner\<close>

text \<open>
  The closure that \<^verbatim>\<open>RestoreState\<close> hands to \<^verbatim>\<open>View\<close>: the bucket, the four objects
  (a missing key or an object of another shape is a read error), then the fields of the
  runner. The assignment to \<^verbatim>\<open>r.alloc.ClientStatus\<close> dereferences the restored
  allocation, so a stored \<^verbatim>\<open>nil\<close> allocation is a panic.
\<close>

definition readState :: "AllocRunner \<Rightarrow> error + AllocRunner" where
  "readState r =
     (case buckets (stateDB r) (allocID r) of
        None \<Rightarrow> Inl (Error ''failed to get allocation bucket'')
      | Some bkt \<Rightarrow>
         (case bkt allocRunnerStateAllocKey of
            Some (AllocState allocState) \<Rightarrow>
              (case bkt allocRunnerStateImmutableKey of
                 Some (ImmutableState version) \<Rightarrow>
                   (case bkt allocRunnerStateMutableKey of
                      Some (MutableState status desc states ds) \<Rightarrow>
                        (case bkt allocRunnerStateAllocDirKey of
                           Some (AllocDirState dir) \<Rightarrow>
                             (case allocState of
                                None \<Rightarrow> Inl Panic
                              | Some a \<Rightarrow>
                                  Inr (r\<lparr>alloc := a\<lparr>ClientStatus := getClientStatus states,
                                                     DeploymentStatus := ds\<rparr>,
                                         allocDir := Some dir,
                                         allocClientStatus := status,
                                         allocClientDescription := desc,
                                         taskStates := states\<rparr>))
                         | _ \<Rightarrow> Inl (Error ''failed to read alloc runner alloc_dir state''))
                    | _ \<Rightarrow> Inl (Error ''failed to read alloc runner mutable state''))
               | _ \<Rightarrow> Inl (Error ''failed to read alloc runner immutable state''))
          | _ \<Rightarrow> Inl (Error ''failed to read alloc runner alloc state'')))"

text \<open>
  One turn of the loop over the tasks of the group. The second component collects the
  errors of the task runners. \<open>trRestore\<close> is what \<^verbatim>\<open>tr.RestoreState()\<close> returns for a
  task: an error, or the reason for a restart (possibly empty). A task without a state
  is left to \<^verbatim>\<open>Run\<close>; a task with a state is marked restored and gets its directory; a
  dead task gets nothing more; any other task gets a task runner, which is started,
  and restarted if there is a reason, unless the allocation is terminal, in which case
  it is destroyed.
\<close>

definition restoreTask ::
  "(string \<Rightarrow> string + string) \<Rightarrow> time \<Rightarrow> Task \<Rightarrow> AllocRunner \<times> string list \<Rightarrow>
   error + (AllocRunner \<times> string list)" where
  "restoreTask trRestore now t = (\<lambda>(r, mErr).
     let name = Name t in
     case map_of (taskStates r) name of
       None \<Rightarrow> Inr (r, mErr)
     | Some state \<Rightarrow>
        (case allocDir r of
           None \<Rightarrow> Inl Panic
         | Some dir \<Rightarrow>
            let r1 = r\<lparr>restored := insert name (restored r)\<rparr>;
                r2 = (case map_of (TaskDirs dir) name of
                        Some td \<Rightarrow> r1
                      | None \<Rightarrow> r1\<lparr>allocDir := Some (snd (NewTaskDir name dir))\<rparr>)
            in if State state = TaskStateDead then Inr (r2, mErr)
               else
                 andThen (Alloc now r2) (\<lambda>(a, r3).
                   let tr = received CallRestoreState (NewTaskRunner t) in
                   (case trRestore name of
                      Inl err \<Rightarrow>
                        Inr (r3\<lparr>tasks := AList.update name tr (tasks r3),
                                logger := logger r3 @
                                  [''[ERR] client: failed to restore state for task '' @ name]\<rparr>,
                             mErr @ [err])
                    | Inr restartReason \<Rightarrow>
                        if \<not> TerminalStatus (alloc r3) then
                          (if restartReason \<noteq> '''' then
                             Inr (r3\<lparr>tasks := AList.update name
                                     (received (CallRestart ''upgrade'' restartReason False)
                                        (received CallRun tr)) (tasks r3),
                                     logger := logger r3 @
                                       [''[INFO] client: restarting task '' @ name]\<rparr>,
                                  mErr)
                           else
                             Inr (r3\<lparr>tasks := AList.update name (received CallRun tr) (tasks r3)\<rparr>,
                                  mErr))
                        else
                          Inr (r3\<lparr>tasks := AList.update name
                                  (Destroy_runner (NewTaskEvent now TaskKilled) tr) (tasks r3)\<rparr>,
                               mErr)))))"

fun restoreTasks ::
  "(string \<Rightarrow> string + string) \<Rightarrow> time \<Rightarrow> Task list \<Rightarrow> AllocRunner \<times> string list \<Rightarrow>
   error + (AllocRunner \<times> string list)" where
  "restoreTasks trRestore now [] s = Inr s"
| "restoreTasks trRestore now (t # ts) s =
     andThen (restoreTask trRestore now t s) (restoreTasks trRestore now ts)"

text \<open>
  \<^verbatim>\<open>RestoreState\<close> returns an error or \<^verbatim>\<open>nil\<close>, and leaves the runner as far as it got:
  when the task runners report errors, the task runners have been created all the
  same. A panic ends the process; the runner returned with it is the one before the
  call.
\<close>

definition RestoreState ::
  "(string \<Rightarrow> string + string) \<Rightarrow> time \<Rightarrow> AllocRunner \<Rightarrow> error option \<times> AllocRunner" where
  "RestoreState trRestore now r =
     (case readState r of
        Inl Panic \<Rightarrow> (Some Panic, r)
      | Inl (Error msg) \<Rightarrow> (Some (Error (''failed to read allocation state: '' @ msg)), r)
      | Inr r1 \<Rightarrow>
          if allocDir r1 = None
          then (Some (Error ''alloc_runner snapshot includes a nil alloc dir''), r1)
          else
            (case LookupTaskGroup (AllocJob (alloc r1)) (TaskGroup (alloc r1)) of
               None \<Rightarrow> (Some (Error ''restored allocation does not contain task group''), r1)
             | Some tg \<Rightarrow>
                 (case restoreTasks trRestore now (Tasks tg) (r1, []) of
                    Inl e \<Rightarrow> (Some e, r)
                  | Inr (r2, mErr) \<Rightarrow>
                      (if mErr = [] then None else Some (Error (concat mErr)), r2))))"

section \<open>The life of a runner\<close>

text \<open>
  The source assigns \<^verbatim>\<open>persistedEval\<close>, \<^verbatim>\<open>immutablePersisted\<close> and
  \<^verbatim>\<open>allocDirPersisted\<close> in the three commit callbacks of \<^verbatim>\<open>saveAllocRunnerState\<close>
  and nowhere else, never assigns \<^verbatim>\<open>allocID\<close> after construction, and writes to the
  store in \<^verbatim>\<open>saveAllocRunnerState\<close> only (\<^verbatim>\<open>DestroyState\<close> deletes the bucket once the
  context is cancelled). The life of a runner is therefore a list of steps: a call of
  \<^verbatim>\<open>saveAllocRunnerState\<close> (from \<^verbatim>\<open>SaveState\<close>, \<^verbatim>\<open>syncStatus\<close> or
  \<^verbatim>\<open>handleDestroy\<close>), or anything else the runner does, which may change every other
  field at will. A panic ends the life.
\<close>

datatype step =
    SaveStep tx_env time
  | OtherStep "AllocRunner \<Rightarrow> AllocRunner"

definition keepPersisted :: "AllocRunner \<Rightarrow> AllocRunner \<Rightarrow> AllocRunner" where
  "keepPersisted r r' =
     r'\<lparr>allocID := allocID r, stateDB := stateDB r, persistedEval := persistedEval r,
        immutablePersisted := immutablePersisted r, allocDirPersisted := allocDirPersisted r\<rparr>"

fun lifetime :: "step list \<Rightarrow> AllocRunner \<Rightarrow> AllocRunner" where
  "lifetime [] r = r"
| "lifetime (SaveStep env now # ss) r =
     (case saveAllocRunnerState env now r of
        (Some Panic, r') \<Rightarrow> r'
      | (_, r') \<Rightarrow> lifetime ss r')"
| "lifetime (OtherStep f # ss) r = lifetime ss (keepPersisted r (f r))"

text \<open>How often a key was written, by the log of the store.\<close>

definition writeCount :: "string \<Rightarrow> boltDB \<Rightarrow> nat" where
  "writeCount key db = length (filter (\<lambda>(i, k). k = key) (writeLog db))"

section \<open>Example data\<close>

text \<open>
  The allocation of scenario S1 of the specification: group \<open>g1\<close> with the leader \<open>t1\<close>
  and the task \<open>t2\<close>; an empty store; a store that takes every write, one that refuses
  the mutable record, and one whose commit fails.
\<close>

definition exampleJob :: Job where
  "exampleJob =
     \<lparr>JobName = ''job'',
      TaskGroups = [\<lparr>GroupName = ''g1'',
                     Tasks = [\<lparr>Name = ''t1'', Leader = True\<rparr>, \<lparr>Name = ''t2'', Leader = False\<rparr>]\<rparr>]\<rparr>"

definition exampleAlloc :: Allocation where
  "exampleAlloc =
     \<lparr>ID = ''a1'', EvalID = ''e1'', TaskGroup = ''g1'', AllocJob = exampleJob,
      DeploymentID = '''', DeploymentStatus = None, ClientStatus = ''pending'',
      ClientDescription = '''', TaskStates = []\<rparr>"

definition emptyDB :: boltDB where
  "emptyDB = \<lparr>buckets = Map.empty, writeLog = []\<rparr>"

definition exampleRunner :: AllocRunner where
  "exampleRunner = NewAllocRunner ''0.8.4'' ''/var/nomad/alloc'' emptyDB exampleAlloc"

definition okEnv :: tx_env where
  "okEnv = \<lparr>bucketErr = False, putErr = {}, commitErr = False\<rparr>"

definition mutableFailsEnv :: tx_env where
  "mutableFailsEnv = \<lparr>bucketErr = False, putErr = {allocRunnerStateMutableKey}, commitErr = False\<rparr>"

definition commitFailsEnv :: tx_env where
  "commitFailsEnv = \<lparr>bucketErr = False, putErr = {}, commitErr = True\<rparr>"

text \<open>
  An allocation that names a task group its job does not have, a new runner for it, and
  that runner after \<^verbatim>\<open>Run\<close> has found the task group missing and has set the
  status to failed.
\<close>

definition missingGroupAlloc :: Allocation where
  "missingGroupAlloc = exampleAlloc\<lparr>TaskGroup := ''g2''\<rparr>"

definition missingGroupRunner :: AllocRunner where
  "missingGroupRunner = NewAllocRunner ''0.8.4'' ''/var/nomad/alloc'' emptyDB missingGroupAlloc"

definition failedMissingGroupRunner :: AllocRunner where
  "failedMissingGroupRunner =
     setStatus AllocClientStatusFailed (''missing task group '' @ [CHR 0x27] @ ''g2'' @ [CHR 0x27])
       missingGroupRunner"

text \<open>
  The runner after \<^verbatim>\<open>Run\<close> has started the two tasks: each task runner has been
  created, marked as received and started.
\<close>

definition runningRunner :: AllocRunner where
  "runningRunner =
     exampleRunner
       \<lparr>tasks := [(''t1'', \<lparr>task = \<lparr>Name = ''t1'', Leader = True\<rparr>,
                            calls = [CallMarkReceived, CallRun]\<rparr>),
                   (''t2'', \<lparr>task = \<lparr>Name = ''t2'', Leader = False\<rparr>,
                            calls = [CallMarkReceived, CallRun]\<rparr>)]\<rparr>"

text \<open>
  The store of scenario S4 of the specification: the node crashed with \<open>t1\<close> dead
  and failed and \<open>t2\<close> running; and a new runner over that store.
\<close>

definition crashedTaskStates :: task_states where
  "crashedTaskStates =
     [(''t1'', emptyTaskState\<lparr>State := ''dead'', Failed := True, FinishedAt := 15\<rparr>),
      (''t2'', emptyTaskState\<lparr>State := ''running'', StartedAt := 12\<rparr>)]"

definition crashedBucket :: bucket where
  "crashedBucket =
     [allocRunnerStateAllocKey \<mapsto> AllocState (Some exampleAlloc),
      allocRunnerStateImmutableKey \<mapsto> ImmutableState ''0.8.4'',
      allocRunnerStateMutableKey \<mapsto> MutableState '''' '''' crashedTaskStates None,
      allocRunnerStateAllocDirKey \<mapsto> AllocDirState (NewAllocDir ''/var/nomad/alloc/a1'')]"

definition crashedDB :: boltDB where
  "crashedDB = \<lparr>buckets = [''a1'' \<mapsto> crashedBucket], writeLog = []\<rparr>"

definition crashedRunner :: AllocRunner where
  "crashedRunner = NewAllocRunner ''0.8.4'' ''/var/nomad/alloc'' crashedDB exampleAlloc"

lemmas example_defs =
  exampleJob_def exampleAlloc_def emptyDB_def exampleRunner_def okEnv_def
  mutableFailsEnv_def commitFailsEnv_def NewAllocRunner_def NewAllocDir_def

text \<open>
  The state that the runner has recorded for a task, and the state that a snapshot
  taken at \<open>now\<close> shows for it (none if the task has no state, or if \<^verbatim>\<open>Alloc\<close> panics).
\<close>

definition taskStateOf :: "AllocRunner \<Rightarrow> string \<Rightarrow> string option" where
  "taskStateOf r name = map_option State (map_of (taskStates r) name)"

definition snapshotStateOf :: "time \<Rightarrow> AllocRunner \<Rightarrow> string \<Rightarrow> string option" where
  "snapshotStateOf now r name =
     (case Alloc now r of
        Inl e \<Rightarrow> None
      | Inr (a, r') \<Rightarrow> map_option State (map_of (TaskStates a) name))"

text \<open>
  The invariant of a life: a record has been written at most once more than at the
  start (\<open>ci\<close>, \<open>cd\<close> are the counts at the start), and not at all while its flag is
  unset.
\<close>

definition onceOnly :: "nat \<Rightarrow> nat \<Rightarrow> AllocRunner \<Rightarrow> bool" where
  "onceOnly ci cd r =
     (writeCount allocRunnerStateImmutableKey (stateDB r) \<le>
        (if immutablePersisted r then ci + 1 else ci) \<and>
      writeCount allocRunnerStateAllocDirKey (stateDB r) \<le>
        (if allocDirPersisted r then cd + 1 else cd))"

lemmas alloc_defs =
  Alloc_def composeAlloc_def finalizeTerminalAlloc_def Let_def copyTaskStates_def
  getClientStatus_def scanTaskState_def ClientTerminalStatus_def LookupTaskGroup_def
  finishTask_def IsZero_def emptyTaskState_def structs_consts

lemmas persist_defs =
  saveAllocRunnerState_def Batch_def saveTx_def andThen_def PutObject_def OnCommit_def
  emptyTx_def commitPuts_def written_def state_keys

section \<open>Properties of the derived client status\<close>

lemma scan_step:
  "scanTaskState state (p, r, d, f) =
     (p \<or> State state = TaskStatePending,
      r \<or> State state = TaskStateRunning,
      d \<or> (State state = TaskStateDead \<and> \<not> Failed state),
      f \<or> (State state = TaskStateDead \<and> Failed state))"
  by (simp add: scanTaskState_def structs_consts)

lemma scan_flags:
  "fold (\<lambda>(name, state). scanTaskState state) ts (p, r, d, f) =
     (p \<or> anyTask (\<lambda>s. State s = TaskStatePending) ts,
      r \<or> anyTask (\<lambda>s. State s = TaskStateRunning) ts,
      d \<or> anyTask (\<lambda>s. State s = TaskStateDead \<and> \<not> Failed s) ts,
      f \<or> anyTask (\<lambda>s. State s = TaskStateDead \<and> Failed s) ts)"
proof (induction ts arbitrary: p r d f)
  case Nil
  show ?case by (simp add: anyTask_def)
next
  case (Cons a ts)
  obtain name state where a: "a = (name, state)" by (cases a)
  have "fold (\<lambda>(name, state). scanTaskState state) (a # ts) (p, r, d, f) =
      fold (\<lambda>(name, state). scanTaskState state) ts (scanTaskState state (p, r, d, f))"
    by (simp add: a)
  also have "\<dots> =
     (p \<or> anyTask (\<lambda>s. State s = TaskStatePending) (a # ts),
      r \<or> anyTask (\<lambda>s. State s = TaskStateRunning) (a # ts),
      d \<or> anyTask (\<lambda>s. State s = TaskStateDead \<and> \<not> Failed s) (a # ts),
      f \<or> anyTask (\<lambda>s. State s = TaskStateDead \<and> Failed s) (a # ts))"
    unfolding scan_step Cons.IH by (simp add: a anyTask_def)
  finally show ?case .
qed

lemma anyTask_dead_split:
  "anyTask (\<lambda>s. State s = TaskStateDead) ts =
     (anyTask (\<lambda>s. State s = TaskStateDead \<and> Failed s) ts \<or>
      anyTask (\<lambda>s. State s = TaskStateDead \<and> \<not> Failed s) ts)"
  by (induction ts) (auto simp: anyTask_def)

text \<open>
  Claim C1. For every task-state map \<^verbatim>\<open>getClientStatus\<close> returns \<open>failed\<close> if some task
  is dead with \<open>Failed\<close> set; otherwise \<open>running\<close> if some task is running; otherwise
  \<open>pending\<close> if some task is pending; otherwise \<open>complete\<close> if some task is dead;
  otherwise the empty string; and the empty map gives the empty string.
\<close>

theorem getClientStatus_precedence:
  "getClientStatus states = clientStatusSpec states \<and> getClientStatus [] = ''''"
proof
  show "getClientStatus states = clientStatusSpec states"
    unfolding getClientStatus_def clientStatusSpec_def scan_flags
    by (simp add: anyTask_dead_split [of states])
  show "getClientStatus [] = ''''"
    by (simp add: getClientStatus_def)
qed

theorem getClientStatus_precedence_witness:
  "getClientStatus
     [(''web'', emptyTaskState\<lparr>State := ''running''\<rparr>),
      (''db'', emptyTaskState\<lparr>State := ''dead'', Failed := True\<rparr>),
      (''log'', emptyTaskState\<lparr>State := ''pending''\<rparr>)] = ''failed''
   \<and> getClientStatus
     [(''web'', emptyTaskState\<lparr>State := ''dead''\<rparr>),
      (''log'', emptyTaskState\<lparr>State := ''pending''\<rparr>)] = ''pending''"
  using getClientStatus_precedence
    [of "[(''web'', emptyTaskState\<lparr>State := ''running''\<rparr>),
          (''db'', emptyTaskState\<lparr>State := ''dead'', Failed := True\<rparr>),
          (''log'', emptyTaskState\<lparr>State := ''pending''\<rparr>)]"]
    getClientStatus_precedence
    [of "[(''web'', emptyTaskState\<lparr>State := ''dead''\<rparr>),
          (''log'', emptyTaskState\<lparr>State := ''pending''\<rparr>)]"]
  by (simp add: clientStatusSpec_def anyTask_def emptyTaskState_def structs_consts)

section \<open>Properties of the event list\<close>

lemma appendTaskEvent_Events:
  "length (Events s) \<le> 10 \<Longrightarrow>
   Events (appendTaskEvent s e) = drop (length (Events s @ [e]) - 10) (Events s @ [e])"
  by (simp add: appendTaskEvent_def Let_def)

lemma appendTaskEvents_Events:
  "length (Events s) \<le> 10 \<Longrightarrow>
   Events (appendTaskEvents s es) = drop (length (Events s @ es) - 10) (Events s @ es)"
proof (induction es arbitrary: s)
  case Nil
  then show ?case by (simp add: appendTaskEvents_def)
next
  case (Cons e es)
  let ?s = "appendTaskEvent s e"
  have ev: "Events ?s = drop (length (Events s @ [e]) - 10) (Events s @ [e])"
    using Cons.prems by (rule appendTaskEvent_Events)
  have len: "length (Events ?s) \<le> 10"
    unfolding ev by simp
  have "Events (appendTaskEvents s (e # es)) = Events (appendTaskEvents ?s es)"
    by (simp add: appendTaskEvents_def)
  also have "\<dots> = drop (length (Events ?s @ es) - 10) (Events ?s @ es)"
    using len by (rule Cons.IH)
  also have "\<dots> = drop (length (Events s @ e # es) - 10) (Events s @ e # es)"
  proof -
    let ?k = "length (Events s @ [e]) - 10"
    have "Events ?s @ es = drop ?k ((Events s @ [e]) @ es)"
      unfolding ev using Cons.prems by simp
    then have "drop (length (Events ?s @ es) - 10) (Events ?s @ es) =
        drop (length (drop ?k ((Events s @ [e]) @ es)) - 10 + ?k) ((Events s @ [e]) @ es)"
      by (simp only: drop_drop)
    also have "length (drop ?k ((Events s @ [e]) @ es)) - 10 + ?k =
        length (Events s @ e # es) - 10"
      using Cons.prems by simp
    finally show ?thesis by simp
  qed
  finally show ?case .
qed

text \<open>
  Claim C4. Starting from a task state with no events, after any sequence of
  \<^verbatim>\<open>appendTaskEvent\<close> calls the list holds at most 10 events, and they are the last
  events appended, in the order of their insertion: on overflow the oldest is dropped.
\<close>

theorem appendTaskEvent_ring:
  "length (Events (appendTaskEvents (state\<lparr>Events := []\<rparr>) events)) \<le> 10 \<and>
   Events (appendTaskEvents (state\<lparr>Events := []\<rparr>) events) =
     drop (length events - 10) events \<and>
   Events (appendTaskEvent (state\<lparr>Events := old # olds\<rparr>) event) =
     (if length olds = 9 then olds @ [event] else old # olds @ [event])"
proof -
  have ev: "Events (appendTaskEvents (state\<lparr>Events := []\<rparr>) events) =
      drop (length events - 10) events"
    using appendTaskEvents_Events [of "state\<lparr>Events := []\<rparr>" events] by simp
  have one: "Events (appendTaskEvent (state\<lparr>Events := old # olds\<rparr>) event) =
      (if length olds = 9 then olds @ [event] else old # olds @ [event])"
    by (simp add: appendTaskEvent_def Let_def)
  show ?thesis
    unfolding ev using one by simp
qed

theorem appendTaskEvent_ring_witness:
  "Events (appendTaskEvents (emptyTaskState\<lparr>Events := []\<rparr>)
     (map (NewTaskEvent 0) [''e1'', ''e2'', ''e3'', ''e4'', ''e5'', ''e6'', ''e7'', ''e8'',
        ''e9'', ''e10'', ''e11'', ''e12''])) =
   map (NewTaskEvent 0) [''e3'', ''e4'', ''e5'', ''e6'', ''e7'', ''e8'', ''e9'', ''e10'',
     ''e11'', ''e12'']"
  using appendTaskEvent_ring [of emptyTaskState
    "map (NewTaskEvent 0) [''e1'', ''e2'', ''e3'', ''e4'', ''e5'', ''e6'', ''e7'', ''e8'',
        ''e9'', ''e10'', ''e11'', ''e12'']"]
  by simp

section \<open>Properties of persistence\<close>

lemma finalizeTerminalAlloc_frame:
  "finalizeTerminalAlloc now a r = Inr (a', r1) \<Longrightarrow> r1 = r\<lparr>taskStates := taskStates r1\<rparr>"
  by (auto simp: finalizeTerminalAlloc_def Let_def split: if_splits option.splits)

lemma finalizeTerminalAlloc_EvalID:
  "finalizeTerminalAlloc now a r = Inr (a', r1) \<Longrightarrow> EvalID a' = EvalID a"
  by (auto simp: finalizeTerminalAlloc_def Let_def split: if_splits option.splits)

lemma Alloc_frame:
  "Alloc now r = Inr (a, r1) \<Longrightarrow> r1 = r\<lparr>taskStates := taskStates r1\<rparr>"
  unfolding Alloc_def by (rule finalizeTerminalAlloc_frame)

lemma composeAlloc_fields:
  "EvalID (composeAlloc r) = EvalID (alloc r)"
  "AllocJob (composeAlloc r) = AllocJob (alloc r)"
  "TaskGroup (composeAlloc r) = TaskGroup (alloc r)"
  by (simp_all add: composeAlloc_def Let_def split: option.splits)

lemma Alloc_EvalID:
  "Alloc now r = Inr (a, r1) \<Longrightarrow> EvalID a = EvalID (alloc r)"
  unfolding Alloc_def
  by (auto dest!: finalizeTerminalAlloc_EvalID simp: composeAlloc_fields)

lemma saveTx_Inr:
  assumes "saveTx env r a status desc dir = Inr t"
  shows "puts t =
      (if EvalID a \<noteq> persistedEval r then [(allocRunnerStateAllocKey, AllocState (Some a))] else []) @
      (if \<not> immutablePersisted r
       then [(allocRunnerStateImmutableKey, ImmutableState (configVersion r))] else []) @
      (case dir of
         Some d \<Rightarrow> if \<not> allocDirPersisted r then [(allocRunnerStateAllocDirKey, AllocDirState d)] else []
       | None \<Rightarrow> []) @
      [(allocRunnerStateMutableKey, MutableState status desc (TaskStates a) (DeploymentStatus a))]"
    and "commitHandlers t =
      (if EvalID a \<noteq> persistedEval r then [SetPersistedEval (EvalID a)] else []) @
      (if \<not> immutablePersisted r then [SetImmutablePersisted] else []) @
      (case dir of
         Some d \<Rightarrow> if \<not> allocDirPersisted r then [SetAllocDirPersisted] else []
       | None \<Rightarrow> [])"
  using assms
  unfolding saveTx_def andThen_def PutObject_def OnCommit_def emptyTx_def
  by (auto split: if_splits option.splits sum.splits)


lemma written_commit:
  "written r (fold commitHandler hs (r\<lparr>stateDB := commitPuts i ps (stateDB r)\<rparr>)) = map fst ps"
proof -
  have frame: "stateDB (fold commitHandler hs r0) = stateDB r0" for r0
  proof (induction hs arbitrary: r0)
    case Nil
    show ?case by simp
  next
    case (Cons h hs)
    show ?case by (cases h) (simp_all add: Cons.IH)
  qed
  show ?thesis
    by (simp add: written_def frame commitPuts_def Let_def comp_def case_prod_beta)
qed

lemma save_run:
  assumes "\<not> ctxCanceled r" "Alloc now r = Inr (a, r1)"
  shows "saveAllocRunnerState env now r =
    (case saveTx env r1 a (allocClientStatus r1) (allocClientDescription r1) (allocDir r1) of
       Inl e \<Rightarrow> (Some e, r1)
     | Inr t \<Rightarrow>
         if commitErr env then (Some (Error ''commit failed''), r1)
         else (None, fold commitHandler (commitHandlers t)
                 (r1\<lparr>stateDB := commitPuts (allocID r1) (puts t) (stateDB r1)\<rparr>)))"
  by (simp add: saveAllocRunnerState_def Batch_def assms)

lemma save_canceled: "ctxCanceled r \<Longrightarrow> saveAllocRunnerState env now r = (None, r)"
  by (simp add: saveAllocRunnerState_def)

lemma save_panic:
  "\<not> ctxCanceled r \<Longrightarrow> Alloc now r = Inl e \<Longrightarrow> saveAllocRunnerState env now r = (Some e, r)"
  by (simp add: saveAllocRunnerState_def)

lemma fold_commitHandler_fields:
  "immutablePersisted (fold commitHandler hs r) =
     (immutablePersisted r \<or> SetImmutablePersisted \<in> set hs)"
  "allocDirPersisted (fold commitHandler hs r) =
     (allocDirPersisted r \<or> SetAllocDirPersisted \<in> set hs)"
  "stateDB (fold commitHandler hs r) = stateDB r"
  "allocID (fold commitHandler hs r) = allocID r"
  "ctxCanceled (fold commitHandler hs r) = ctxCanceled r"
proof (induction hs arbitrary: r)
  case Nil
  {
    case 1 show ?case by simp
  next
    case 2 show ?case by simp
  next
    case 3 show ?case by simp
  next
    case 4 show ?case by simp
  next
    case 5 show ?case by simp
  }
next
  case (Cons h hs)
  {
    case 1 show ?case by (cases h) (auto simp: Cons.IH)
  next
    case 2 show ?case by (cases h) (auto simp: Cons.IH)
  next
    case 3 show ?case by (cases h) (auto simp: Cons.IH)
  next
    case 4 show ?case by (cases h) (auto simp: Cons.IH)
  next
    case 5 show ?case by (cases h) (auto simp: Cons.IH)
  }
qed

lemma saveTx_persistedEval:
  assumes "saveTx env r a status desc dir = Inr t"
  shows "persistedEval (fold commitHandler (commitHandlers t) r0) =
     (if EvalID a \<noteq> persistedEval r then EvalID a else persistedEval r0)"
  unfolding saveTx_Inr(2) [OF assms]
  by (simp split: option.splits)

lemma saveTx_keys:
  assumes "saveTx env r a status desc dir = Inr t"
  shows "map fst (puts t) =
      (if EvalID a \<noteq> persistedEval r then [allocRunnerStateAllocKey] else []) @
      (if \<not> immutablePersisted r then [allocRunnerStateImmutableKey] else []) @
      (if \<not> allocDirPersisted r \<and> dir \<noteq> None then [allocRunnerStateAllocDirKey] else []) @
      [allocRunnerStateMutableKey]"
  unfolding saveTx_Inr(1) [OF assms]
  by (simp split: option.splits)

lemma writeCount_commitPuts:
  "writeCount key (commitPuts i ps db) =
     writeCount key db + length (filter (\<lambda>k. k = key) (map fst ps))"
  by (simp add: writeCount_def commitPuts_def Let_def filter_map comp_def case_prod_beta)

lemma save_effect:
  assumes "saveAllocRunnerState env now r = (err, r')"
  shows "immutablePersisted r' = (immutablePersisted r \<or> (err = None \<and> \<not> ctxCanceled r))"
    and "allocDirPersisted r' =
           (allocDirPersisted r \<or> (err = None \<and> \<not> ctxCanceled r \<and> allocDir r \<noteq> None))"
    and "writeCount allocRunnerStateImmutableKey (stateDB r') =
           writeCount allocRunnerStateImmutableKey (stateDB r) +
           (if err = None \<and> \<not> ctxCanceled r \<and> \<not> immutablePersisted r then 1 else 0)"
    and "writeCount allocRunnerStateAllocDirKey (stateDB r') =
           writeCount allocRunnerStateAllocDirKey (stateDB r) +
           (if err = None \<and> \<not> ctxCanceled r \<and> \<not> allocDirPersisted r \<and> allocDir r \<noteq> None
            then 1 else 0)"
    and "err \<noteq> None \<Longrightarrow> stateDB r' = stateDB r"
    and "allocID r' = allocID r"
proof -
  let ?P = "immutablePersisted r' = (immutablePersisted r \<or> (err = None \<and> \<not> ctxCanceled r)) \<and>
    allocDirPersisted r' =
      (allocDirPersisted r \<or> (err = None \<and> \<not> ctxCanceled r \<and> allocDir r \<noteq> None)) \<and>
    writeCount allocRunnerStateImmutableKey (stateDB r') =
      writeCount allocRunnerStateImmutableKey (stateDB r) +
      (if err = None \<and> \<not> ctxCanceled r \<and> \<not> immutablePersisted r then 1 else 0) \<and>
    writeCount allocRunnerStateAllocDirKey (stateDB r') =
      writeCount allocRunnerStateAllocDirKey (stateDB r) +
      (if err = None \<and> \<not> ctxCanceled r \<and> \<not> allocDirPersisted r \<and> allocDir r \<noteq> None
       then 1 else 0) \<and>
    (err \<noteq> None \<longrightarrow> stateDB r' = stateDB r) \<and> allocID r' = allocID r"
  have ?P
  proof (cases "ctxCanceled r")
    case True
    with assms have "err = None" "r' = r" by (simp_all add: save_canceled)
    with True show ?thesis by simp
  next
    case nc: False
    show ?thesis
    proof (cases "Alloc now r")
      case (Inl e)
      with nc assms have "err = Some e" "r' = r" by (simp_all add: save_panic)
      then show ?thesis by simp
    next
      case (Inr p)
      obtain a r1 where p: "p = (a, r1)" by (cases p)
      have A: "Alloc now r = Inr (a, r1)" using Inr p by simp
      have r1: "r1 = r\<lparr>taskStates := taskStates r1\<rparr>"
        using A by (rule Alloc_frame)
      have fr: "immutablePersisted r1 = immutablePersisted r"
        "allocDirPersisted r1 = allocDirPersisted r" "stateDB r1 = stateDB r"
        "allocID r1 = allocID r" "allocDir r1 = allocDir r"
        by (subst r1, simp)+
      let ?body = "saveTx env r1 a (allocClientStatus r1) (allocClientDescription r1) (allocDir r1)"
      note run = save_run [OF nc A, of env]
      show ?thesis
      proof (cases ?body)
        case (Inl e)
        with run assms have "err = Some e" "r' = r1" by simp_all
        then show ?thesis by (simp add: fr)
      next
        case body: (Inr t)
        show ?thesis
        proof (cases "commitErr env")
          case True
          with run assms body have "err = Some (Error ''commit failed'')" "r' = r1" by simp_all
          then show ?thesis by (simp add: fr)
        next
          case False
          with run assms body have err: "err = None"
            and r': "r' = fold commitHandler (commitHandlers t)
                  (r1\<lparr>stateDB := commitPuts (allocID r1) (puts t) (stateDB r1)\<rparr>)"
            by simp_all
          have hs: "SetImmutablePersisted \<in> set (commitHandlers t) \<longleftrightarrow> \<not> immutablePersisted r"
            "SetAllocDirPersisted \<in> set (commitHandlers t) \<longleftrightarrow>
               \<not> allocDirPersisted r \<and> allocDir r \<noteq> None"
            unfolding saveTx_Inr(2) [OF body] fr by (cases "allocDir r"; simp)+
          show ?thesis
            unfolding r' fold_commitHandler_fields
            using err nc hs
            by (auto simp: writeCount_commitPuts saveTx_keys [OF body] fr state_keys)
        qed
      qed
    qed
  qed
  then show "immutablePersisted r' = (immutablePersisted r \<or> (err = None \<and> \<not> ctxCanceled r))"
    and "allocDirPersisted r' =
           (allocDirPersisted r \<or> (err = None \<and> \<not> ctxCanceled r \<and> allocDir r \<noteq> None))"
    and "writeCount allocRunnerStateImmutableKey (stateDB r') =
           writeCount allocRunnerStateImmutableKey (stateDB r) +
           (if err = None \<and> \<not> ctxCanceled r \<and> \<not> immutablePersisted r then 1 else 0)"
    and "writeCount allocRunnerStateAllocDirKey (stateDB r') =
           writeCount allocRunnerStateAllocDirKey (stateDB r) +
           (if err = None \<and> \<not> ctxCanceled r \<and> \<not> allocDirPersisted r \<and> allocDir r \<noteq> None
            then 1 else 0)"
    and "err \<noteq> None \<Longrightarrow> stateDB r' = stateDB r"
    and "allocID r' = allocID r"
    by simp_all
qed

lemma onceOnly_save:
  assumes "onceOnly ci cd r" "saveAllocRunnerState env now r = (err, r')"
  shows "onceOnly ci cd r'"
  using assms(1)
  unfolding onceOnly_def save_effect(1-4) [OF assms(2)]
  by (auto split: if_splits)

lemma onceOnly_lifetime:
  "onceOnly ci cd r \<Longrightarrow> onceOnly ci cd (lifetime steps r)"
proof (induction steps arbitrary: r)
  case Nil
  then show ?case by simp
next
  case (Cons s steps)
  show ?case
  proof (cases s)
    case (SaveStep env now)
    obtain err r' where sv: "saveAllocRunnerState env now r = (err, r')"
      by (cases "saveAllocRunnerState env now r")
    have inv: "onceOnly ci cd r'"
      using Cons.prems sv by (rule onceOnly_save)
    show ?thesis
      using inv Cons.IH [OF inv]
      by (simp add: SaveStep sv split: option.splits error.splits)
  next
    case (OtherStep f)
    have "onceOnly ci cd (keepPersisted r (f r))"
      using Cons.prems by (simp add: onceOnly_def keepPersisted_def)
    then show ?thesis
      by (simp add: OtherStep Cons.IH)
  qed
qed


lemma save_written:
  assumes "saveAllocRunnerState env now r = (err, r')"
  shows "allocRunnerStateImmutableKey \<in> set (written r r') \<longleftrightarrow>
           err = None \<and> \<not> ctxCanceled r \<and> \<not> immutablePersisted r"
    and "allocRunnerStateAllocDirKey \<in> set (written r r') \<longleftrightarrow>
           err = None \<and> \<not> ctxCanceled r \<and> \<not> allocDirPersisted r \<and> allocDir r \<noteq> None"
proof -
  let ?P = "(allocRunnerStateImmutableKey \<in> set (written r r') \<longleftrightarrow>
           err = None \<and> \<not> ctxCanceled r \<and> \<not> immutablePersisted r) \<and>
     (allocRunnerStateAllocDirKey \<in> set (written r r') \<longleftrightarrow>
           err = None \<and> \<not> ctxCanceled r \<and> \<not> allocDirPersisted r \<and> allocDir r \<noteq> None)"
  have ?P
  proof (cases "ctxCanceled r")
    case True
    with assms have "err = None" "r' = r" by (simp_all add: save_canceled)
    with True show ?thesis by (simp add: written_def)
  next
    case nc: False
    show ?thesis
    proof (cases "Alloc now r")
      case (Inl e)
      with nc assms have "err = Some e" "r' = r" by (simp_all add: save_panic)
      then show ?thesis by (simp add: written_def)
    next
      case (Inr p)
      obtain a r1 where p: "p = (a, r1)" by (cases p)
      have A: "Alloc now r = Inr (a, r1)" using Inr p by simp
      have r1: "r1 = r\<lparr>taskStates := taskStates r1\<rparr>"
        using A by (rule Alloc_frame)
      have fr: "immutablePersisted r1 = immutablePersisted r"
        "allocDirPersisted r1 = allocDirPersisted r" "stateDB r1 = stateDB r"
        "allocDir r1 = allocDir r"
        by (subst r1, simp)+
      have wr: "written r x = written r1 x" for x
        by (simp add: written_def fr)
      let ?body = "saveTx env r1 a (allocClientStatus r1) (allocClientDescription r1) (allocDir r1)"
      note run = save_run [OF nc A, of env]
      show ?thesis
      proof (cases ?body)
        case (Inl e)
        with run assms have "err = Some e" "r' = r1" by simp_all
        then show ?thesis by (simp add: written_def fr)
      next
        case body: (Inr t)
        show ?thesis
        proof (cases "commitErr env")
          case True
          with run assms body have "err = Some (Error ''commit failed'')" "r' = r1" by simp_all
          then show ?thesis by (simp add: written_def fr)
        next
          case False
          with run assms body have err: "err = None"
            and r': "r' = fold commitHandler (commitHandlers t)
                  (r1\<lparr>stateDB := commitPuts (allocID r1) (puts t) (stateDB r1)\<rparr>)"
            by simp_all
          have w: "written r r' = map fst (puts t)"
            unfolding wr r' by (rule written_commit)
          show ?thesis
            unfolding w saveTx_keys [OF body] using err nc
            by (simp add: fr state_keys)
        qed
      qed
    qed
  qed
  then show "allocRunnerStateImmutableKey \<in> set (written r r') \<longleftrightarrow>
           err = None \<and> \<not> ctxCanceled r \<and> \<not> immutablePersisted r"
    and "allocRunnerStateAllocDirKey \<in> set (written r r') \<longleftrightarrow>
           err = None \<and> \<not> ctxCanceled r \<and> \<not> allocDirPersisted r \<and> allocDir r \<noteq> None"
    by simp_all
qed

text \<open>
  Claim C5. Within one transaction of \<^verbatim>\<open>saveAllocRunnerState\<close> (the context is
  not cancelled and \<open>a\<close> is the snapshot), a transaction that commits writes the
  \<open>alloc\<close> record if and only if the \<open>EvalID\<close> of the snapshot differs from the last
  persisted one, and leaves the marker at the \<open>EvalID\<close> of the snapshot; a transaction
  that does not commit writes nothing and leaves the marker as it was; and the marker is
  set by a commit callback, registered exactly when the \<open>EvalID\<close> differs.
\<close>

theorem evalID_write_gating:
  assumes "\<not> ctxCanceled r"
    and "Alloc now r = Inr (a, r1)"
    and "saveAllocRunnerState env now r = (err, r')"
  shows "(err = None \<longrightarrow>
            (allocRunnerStateAllocKey \<in> set (written r r') \<longleftrightarrow> EvalID a \<noteq> persistedEval r) \<and>
            persistedEval r' = EvalID a) \<and>
         (err \<noteq> None \<longrightarrow> persistedEval r' = persistedEval r \<and> written r r' = []) \<and>
         (saveTx env r1 a (allocClientStatus r1) (allocClientDescription r1) (allocDir r1) = Inr t \<longrightarrow>
            (allocRunnerStateAllocKey \<in> fst ` set (puts t) \<longleftrightarrow>
               EvalID a \<noteq> persistedEval r) \<and>
            (SetPersistedEval e \<in> set (commitHandlers t) \<longleftrightarrow>
               e = EvalID a \<and> EvalID a \<noteq> persistedEval r))"
proof -
  have r1: "r1 = r\<lparr>taskStates := taskStates r1\<rparr>"
    using assms(2) by (rule Alloc_frame)
  have pe: "persistedEval r1 = persistedEval r" and db: "stateDB r1 = stateDB r"
    by (subst r1, simp)+
  have wr: "written r x = written r1 x" for x
    by (simp add: written_def db)
  let ?body = "saveTx env r1 a (allocClientStatus r1) (allocClientDescription r1) (allocDir r1)"
  note run = save_run [OF assms(1,2), of env]
  have handlers: "SetPersistedEval e \<in> set (commitHandlers t) \<longleftrightarrow>
      e = EvalID a \<and> EvalID a \<noteq> persistedEval r" if "?body = Inr t"
    unfolding saveTx_Inr(2) [OF that] by (auto simp: pe split: option.splits)
  have issued: "allocRunnerStateAllocKey \<in> fst ` set (puts t) \<longleftrightarrow>
      EvalID a \<noteq> persistedEval r" if "?body = Inr t"
    using saveTx_keys [OF that] by (simp add: pe state_keys flip: set_map)
  have main: "(err = None \<longrightarrow>
            (allocRunnerStateAllocKey \<in> set (written r r') \<longleftrightarrow> EvalID a \<noteq> persistedEval r) \<and>
            persistedEval r' = EvalID a) \<and>
         (err \<noteq> None \<longrightarrow> persistedEval r' = persistedEval r \<and> written r r' = [])"
  proof (cases ?body)
    case (Inl e)
    with run assms(3) have "err = Some e" "r' = r1" by simp_all
    then show ?thesis by (simp add: pe written_def db)
  next
    case (Inr t)
    show ?thesis
    proof (cases "commitErr env")
      case True
      with run assms(3) Inr have "err = Some (Error ''commit failed'')" "r' = r1" by simp_all
      then show ?thesis by (simp add: pe written_def db)
    next
      case False
      with run assms(3) Inr have err: "err = None"
        and r': "r' = fold commitHandler (commitHandlers t)
              (r1\<lparr>stateDB := commitPuts (allocID r1) (puts t) (stateDB r1)\<rparr>)"
        by simp_all
      have w: "written r r' = map fst (puts t)"
        unfolding wr r' by (rule written_commit)
      have p: "persistedEval r' = EvalID a"
        unfolding r' saveTx_persistedEval [OF Inr] by (simp add: pe)
      show ?thesis
        unfolding w saveTx_keys [OF Inr] using err p
        by (simp add: pe state_keys)
    qed
  qed
  from main handlers issued show ?thesis by blast
qed

theorem evalID_write_gating_witness:
  "allocRunnerStateAllocKey \<in>
     set (written exampleRunner (snd (saveAllocRunnerState okEnv 5 exampleRunner))) \<and>
   persistedEval (snd (saveAllocRunnerState okEnv 5 exampleRunner)) = ''e1'' \<and>
   persistedEval (snd (saveAllocRunnerState mutableFailsEnv 5 exampleRunner)) = [] \<and>
   written exampleRunner (snd (saveAllocRunnerState mutableFailsEnv 5 exampleRunner)) = []"
proof -
  have nc: "\<not> ctxCanceled exampleRunner"
    by (simp add: example_defs)
  have A: "Alloc 5 exampleRunner =
      Inr (exampleAlloc\<lparr>TaskStates := [], ClientStatus := []\<rparr>, exampleRunner)"
    by (simp add: alloc_defs example_defs)
  have ok: "fst (saveAllocRunnerState okEnv 5 exampleRunner) = None"
    by (simp add: persist_defs alloc_defs example_defs)
  have fl: "fst (saveAllocRunnerState mutableFailsEnv 5 exampleRunner) \<noteq> None"
    by (simp add: persist_defs alloc_defs example_defs)
  have ev: "EvalID (exampleAlloc\<lparr>TaskStates := [], ClientStatus := []\<rparr>) = ''e1''"
    "persistedEval exampleRunner = []"
    by (simp_all add: example_defs)
  from evalID_write_gating [OF nc A prod.collapse [symmetric], of okEnv] ok
    evalID_write_gating [OF nc A prod.collapse [symmetric], of mutableFailsEnv] fl
  show ?thesis
    by (simp add: ev)
qed

text \<open>
  Claim C6. Over the life of one runner, from \<^verbatim>\<open>NewAllocRunner\<close> on, the \<open>immutable\<close>
  record and the \<open>alloc-dir\<close> record are each written at most once; the \<open>alloc-dir\<close>
  record is written only when the copied directory is not \<^verbatim>\<open>nil\<close>; and each of the two
  flags is set exactly by a transaction that commits, so a transaction that is aborted
  (it returns an error) leaves flags and store as they were.
\<close>

theorem once_only_records:
  "writeCount allocRunnerStateImmutableKey
     (stateDB (lifetime steps (NewAllocRunner v root db a))) \<le>
     writeCount allocRunnerStateImmutableKey db + 1 \<and>
   writeCount allocRunnerStateAllocDirKey
     (stateDB (lifetime steps (NewAllocRunner v root db a))) \<le>
     writeCount allocRunnerStateAllocDirKey db + 1 \<and>
   (saveAllocRunnerState env now r = (err, r') \<longrightarrow>
     (allocRunnerStateImmutableKey \<in> set (written r r') \<longleftrightarrow>
        err = None \<and> \<not> ctxCanceled r \<and> \<not> immutablePersisted r) \<and>
     (allocRunnerStateAllocDirKey \<in> set (written r r') \<longleftrightarrow>
        err = None \<and> \<not> ctxCanceled r \<and> \<not> allocDirPersisted r \<and> allocDir r \<noteq> None) \<and>
     (immutablePersisted r' \<longleftrightarrow> immutablePersisted r \<or> (err = None \<and> \<not> ctxCanceled r)) \<and>
     (allocDirPersisted r' \<longleftrightarrow>
        allocDirPersisted r \<or> (err = None \<and> \<not> ctxCanceled r \<and> allocDir r \<noteq> None)) \<and>
     (err \<noteq> None \<longrightarrow> stateDB r' = stateDB r))"
proof -
  let ?r0 = "NewAllocRunner v root db a"
  have "onceOnly (writeCount allocRunnerStateImmutableKey db)
          (writeCount allocRunnerStateAllocDirKey db) ?r0"
    by (simp add: onceOnly_def NewAllocRunner_def)
  then have "onceOnly (writeCount allocRunnerStateImmutableKey db)
          (writeCount allocRunnerStateAllocDirKey db) (lifetime steps ?r0)"
    by (rule onceOnly_lifetime)
  then have life: "writeCount allocRunnerStateImmutableKey (stateDB (lifetime steps ?r0)) \<le>
       writeCount allocRunnerStateImmutableKey db + 1"
    "writeCount allocRunnerStateAllocDirKey (stateDB (lifetime steps ?r0)) \<le>
       writeCount allocRunnerStateAllocDirKey db + 1"
    by (auto simp: onceOnly_def split: if_splits)
  show ?thesis
    using life save_written [of env now r err r'] save_effect(1,2,5) [of env now r err r']
    by blast
qed

theorem once_only_records_witness:
  "writeCount allocRunnerStateImmutableKey
     (stateDB (lifetime
        [SaveStep mutableFailsEnv 1, SaveStep okEnv 2,
         OtherStep (setStatus ''failed'' ''boom''), SaveStep okEnv 3] exampleRunner)) = 1 \<and>
   writeCount allocRunnerStateAllocDirKey
     (stateDB (lifetime
        [SaveStep mutableFailsEnv 1, SaveStep okEnv 2,
         OtherStep (setStatus ''failed'' ''boom''), SaveStep okEnv 3] exampleRunner)) = 1 \<and>
   \<not> immutablePersisted (snd (saveAllocRunnerState mutableFailsEnv 1 exampleRunner)) \<and>
   \<not> allocDirPersisted (snd (saveAllocRunnerState commitFailsEnv 1 exampleRunner)) \<and>
   stateDB (snd (saveAllocRunnerState mutableFailsEnv 1 exampleRunner)) = stateDB exampleRunner \<and>
   immutablePersisted (snd (saveAllocRunnerState okEnv 1 exampleRunner)) \<and>
   allocRunnerStateAllocDirKey \<in>
     set (written exampleRunner (snd (saveAllocRunnerState okEnv 1 exampleRunner)))"
proof -
  let ?steps = "[SaveStep mutableFailsEnv 1, SaveStep okEnv 2,
         OtherStep (setStatus ''failed'' ''boom''), SaveStep okEnv 3]"
  note once = once_only_records [of ?steps "''0.8.4''" "''/var/nomad/alloc''" emptyDB
    exampleAlloc]
  have fl: "fst (saveAllocRunnerState mutableFailsEnv 1 exampleRunner) \<noteq> None"
    "fst (saveAllocRunnerState commitFailsEnv 1 exampleRunner) \<noteq> None"
    "fst (saveAllocRunnerState okEnv 1 exampleRunner) = None"
    by (simp_all add: persist_defs alloc_defs example_defs)
  have fr: "\<not> immutablePersisted exampleRunner" "\<not> allocDirPersisted exampleRunner"
    "\<not> ctxCanceled exampleRunner" "allocDir exampleRunner \<noteq> None"
    by (simp_all add: example_defs)
  have pair: "saveAllocRunnerState env now exampleRunner =
      (fst (saveAllocRunnerState env now exampleRunner),
       snd (saveAllocRunnerState env now exampleRunner))" for env now
    by simp
  have log: "writeLog (stateDB (lifetime ?steps exampleRunner)) =
      [(''a1'', ''alloc''), (''a1'', ''immutable''), (''a1'', ''alloc-dir''),
       (''a1'', ''mutable''), (''a1'', ''mutable'')]"
    by (simp add: persist_defs alloc_defs example_defs keepPersisted_def setStatus_def
        LookupTaskGroup_def finishTask_def emptyTaskState_def IsZero_def)
  have bound: "writeCount allocRunnerStateImmutableKey (stateDB (lifetime ?steps exampleRunner)) \<le>
      writeCount allocRunnerStateImmutableKey emptyDB + 1"
    using once [of okEnv 1 exampleRunner None exampleRunner]
    unfolding exampleRunner_def by blast
  have aborted: "\<not> immutablePersisted (snd (saveAllocRunnerState mutableFailsEnv 1 exampleRunner))"
    "stateDB (snd (saveAllocRunnerState mutableFailsEnv 1 exampleRunner)) = stateDB exampleRunner"
    using once [of mutableFailsEnv 1 exampleRunner
        "fst (saveAllocRunnerState mutableFailsEnv 1 exampleRunner)"
        "snd (saveAllocRunnerState mutableFailsEnv 1 exampleRunner)"]
      pair [of mutableFailsEnv 1] fl(1) fr
    by blast+
  have uncommitted:
    "\<not> allocDirPersisted (snd (saveAllocRunnerState commitFailsEnv 1 exampleRunner))"
    using once [of commitFailsEnv 1 exampleRunner
        "fst (saveAllocRunnerState commitFailsEnv 1 exampleRunner)"
        "snd (saveAllocRunnerState commitFailsEnv 1 exampleRunner)"]
      pair [of commitFailsEnv 1] fl(2) fr
    by blast
  have committed: "immutablePersisted (snd (saveAllocRunnerState okEnv 1 exampleRunner))"
    "allocRunnerStateAllocDirKey \<in>
       set (written exampleRunner (snd (saveAllocRunnerState okEnv 1 exampleRunner)))"
    using once [of okEnv 1 exampleRunner
        "fst (saveAllocRunnerState okEnv 1 exampleRunner)"
        "snd (saveAllocRunnerState okEnv 1 exampleRunner)"]
      pair [of okEnv 1] fl(3) fr
    by blast+
  have counts: "writeCount allocRunnerStateImmutableKey (stateDB (lifetime ?steps exampleRunner)) = 1"
    "writeCount allocRunnerStateAllocDirKey (stateDB (lifetime ?steps exampleRunner)) = 1"
    unfolding writeCount_def log by (simp_all add: state_keys)
  show ?thesis
    using bound counts aborted uncommitted committed by blast
qed

text \<open>
  Claim C10. Once the context of the runner is cancelled, as \<^verbatim>\<open>Destroy\<close> does, every
  call of \<^verbatim>\<open>saveAllocRunnerState\<close> returns \<^verbatim>\<open>nil\<close> and leaves the runner, and with it
  the store, as it was: no number of calls after \<^verbatim>\<open>Destroy\<close> changes the persisted
  records.
\<close>

theorem save_after_cancel:
  "(ctxCanceled r \<longrightarrow> saveAllocRunnerState env now r = (None, r)) \<and>
   ctxCanceled (Destroy r) \<and>
   stateDB (Destroy r) = stateDB r \<and>
   lifetime (map (\<lambda>(env, now). SaveStep env now) saves) (Destroy r) = Destroy r"
proof -
  have one: "ctxCanceled x \<Longrightarrow> saveAllocRunnerState e n x = (None, x)" for e n x
    by (simp add: saveAllocRunnerState_def)
  have many: "ctxCanceled x \<Longrightarrow> lifetime (map (\<lambda>(env, now). SaveStep env now) saves) x = x" for x
    by (induction saves) (auto simp: one)
  have d: "ctxCanceled (Destroy r)" "stateDB (Destroy r) = stateDB r"
    by (simp_all add: Destroy_def)
  show ?thesis
    using one [of r env now] many [OF d(1)] d by simp
qed

theorem save_after_cancel_witness:
  "saveAllocRunnerState okEnv 7 (Destroy exampleRunner) = (None, Destroy exampleRunner) \<and>
   fst (saveAllocRunnerState okEnv 7 exampleRunner) = None \<and>
   writeLog (stateDB (snd (saveAllocRunnerState okEnv 7 exampleRunner))) \<noteq>
     writeLog (stateDB exampleRunner)"
proof -
  have c: "ctxCanceled (Destroy exampleRunner)"
    by (simp add: Destroy_def)
  have live: "fst (saveAllocRunnerState okEnv 7 exampleRunner) = None"
    "writeLog (stateDB (snd (saveAllocRunnerState okEnv 7 exampleRunner))) \<noteq>
     writeLog (stateDB exampleRunner)"
    by (simp_all add: persist_defs alloc_defs example_defs)
  from save_after_cancel [of "Destroy exampleRunner" okEnv 7] c live
  show ?thesis by simp
qed

section \<open>Properties of the update channel\<close>

lemma Update_queue:
  "length (updateCh r) \<le> updateChCap \<Longrightarrow>
   updateCh (fold Update upds r) = take updateChCap (updateCh r @ upds)"
proof (induction upds arbitrary: r)
  case Nil
  then show ?case by simp
next
  case (Cons u upds)
  show ?case
  proof (cases "length (updateCh r) < updateChCap")
    case True
    then have "length (updateCh (Update u r)) \<le> updateChCap"
      by (simp add: Update_def)
    from Cons.IH [OF this] True show ?thesis
      by (simp add: Update_def)
  next
    case False
    with Cons.prems have full: "length (updateCh r) = updateChCap" by simp
    have "length (updateCh (Update u r)) \<le> updateChCap"
      using full by (simp add: Update_def)
    from Cons.IH [OF this] full show ?thesis
      by (simp add: Update_def)
  qed
qed

text \<open>
  Claim C9. \<^verbatim>\<open>Update\<close> sends without blocking on \<^verbatim>\<open>updateCh\<close>, a channel of
  capacity 64 that is empty at construction: with room in the channel the update is
  appended behind the ones waiting; with the channel full the update is dropped, one
  error line is logged and nothing else of the runner changes. So after any number of
  calls the channel holds the first updates, in the order of their arrival, up to its
  capacity.
\<close>

theorem Update_nonblocking:
  "updateChCap = 64 \<and>
   updateCh (NewAllocRunner v root db a) = [] \<and>
   (length (updateCh r) < updateChCap \<longrightarrow> Update upd r = r\<lparr>updateCh := updateCh r @ [upd]\<rparr>) \<and>
   (\<not> length (updateCh r) < updateChCap \<longrightarrow>
      Update upd r =
        r\<lparr>logger := logger r @
          [''[ERR] client: dropping update to alloc '' @ [CHR 0x27] @ ID upd @ [CHR 0x27]]\<rparr>) \<and>
   (length (updateCh r) \<le> updateChCap \<longrightarrow>
      updateCh (fold Update upds r) = take updateChCap (updateCh r @ upds))"
  using Update_queue [of r upds]
  by (simp add: Update_def updateChCap_def NewAllocRunner_def)

theorem Update_nonblocking_witness:
  "updateCh (Update (exampleAlloc\<lparr>EvalID := ''e2''\<rparr>) (Update exampleAlloc exampleRunner)) =
     [exampleAlloc, exampleAlloc\<lparr>EvalID := ''e2''\<rparr>] \<and>
   Update (exampleAlloc\<lparr>EvalID := ''e2''\<rparr>)
     (exampleRunner\<lparr>updateCh := replicate 64 exampleAlloc\<rparr>) =
     exampleRunner\<lparr>updateCh := replicate 64 exampleAlloc,
       logger := [''[ERR] client: dropping update to alloc '' @ [CHR 0x27] @ ''a1'' @ [CHR 0x27]]\<rparr>"
proof -
  let ?e2 = "exampleAlloc\<lparr>EvalID := ''e2''\<rparr>"
  let ?full = "exampleRunner\<lparr>updateCh := replicate 64 exampleAlloc\<rparr>"
  have empty: "updateCh exampleRunner = []" "logger exampleRunner = []"
    by (simp_all add: example_defs)
  have room: "length (updateCh exampleRunner) \<le> updateChCap"
    by (simp add: empty)
  have full: "\<not> length (updateCh ?full) < updateChCap"
    by (simp add: updateChCap_def)
  have queue: "updateCh (fold Update [exampleAlloc, ?e2] exampleRunner) =
      take updateChCap (updateCh exampleRunner @ [exampleAlloc, ?e2])"
    using Update_nonblocking [of "[]" "[]" emptyDB exampleAlloc exampleRunner exampleAlloc
        "[exampleAlloc, ?e2]"] room
    by blast
  have dropped: "Update ?e2 ?full =
      ?full\<lparr>logger := logger ?full @
        [''[ERR] client: dropping update to alloc '' @ [CHR 0x27] @ ID ?e2 @ [CHR 0x27]]\<rparr>"
    using Update_nonblocking [of "[]" "[]" emptyDB exampleAlloc ?full ?e2 "[]"] full
    by blast
  have id: "ID ?e2 = ''a1''"
    by (simp add: exampleAlloc_def)
  show ?thesis
  proof
    show "updateCh (Update ?e2 (Update exampleAlloc exampleRunner)) = [exampleAlloc, ?e2]"
      using queue by (simp add: empty updateChCap_def)
    show "Update ?e2 ?full =
        exampleRunner\<lparr>updateCh := replicate 64 exampleAlloc,
          logger := [''[ERR] client: dropping update to alloc '' @ [CHR 0x27] @ ''a1'' @ [CHR 0x27]]\<rparr>"
      unfolding dropped by (simp add: id empty)
  qed
qed

section \<open>Properties of the snapshot\<close>

lemma copyTaskStates_id: "copyTaskStates states = states"
  by (induction states) (auto simp: copyTaskStates_def)

lemma finished_idem: "finished now (finished now ts) = finished now ts"
  by (simp add: finished_def IsZero_def)

lemma finished_nonzero: "\<not> IsZero now \<Longrightarrow> \<not> IsZero (FinishedAt (finished now ts))"
  by (simp add: finished_def)

lemma finished_State: "State (finished now ts) = State ts"
  by (simp add: finished_def)

lemma finishTask_map_of:
  "map_of (finishTask now t states) n =
     (if n = Name t then Some (finished now (stateOrEmpty states n)) else map_of states n)"
  by (simp add: finishTask_def Let_def update_conv' finished_def stateOrEmpty_def)

lemma finishTasks_map_of:
  "map_of (fold (finishTask now) ts states) n =
     (if n \<in> Name ` set ts then Some (finished now (stateOrEmpty states n))
      else map_of states n)"
proof (induction ts arbitrary: states)
  case Nil
  show ?case by simp
next
  case (Cons t ts)
  show ?case
    by (simp add: Cons.IH finishTask_map_of stateOrEmpty_def finished_idem)
qed

text \<open>
  When the client status is terminal and the task group is missing from the job,
  \<^verbatim>\<open>finalizeTerminalAlloc\<close> panics: it reads \<^verbatim>\<open>group.Tasks\<close> of a \<^verbatim>\<open>nil\<close> group.
\<close>

lemma finalizeTerminalAlloc_missing_group:
  "ClientTerminalStatus a \<Longrightarrow> LookupTaskGroup (AllocJob a) (TaskGroup a) = None \<Longrightarrow>
   finalizeTerminalAlloc now a r = Inl Panic"
  by (simp add: finalizeTerminalAlloc_def)

lemma finalizeTerminalAlloc_terminal:
  "ClientTerminalStatus a \<Longrightarrow> LookupTaskGroup (AllocJob a) (TaskGroup a) = Some tg \<Longrightarrow>
   finalizeTerminalAlloc now a r =
     Inr (a\<lparr>TaskStates := fold (finishTask now) (Tasks tg) (taskStates r)\<rparr>,
          r\<lparr>taskStates := fold (finishTask now) (Tasks tg) (taskStates r)\<rparr>)"
  by (simp add: finalizeTerminalAlloc_def Let_def copyTaskStates_id)

lemma finalizeTerminalAlloc_fields:
  "finalizeTerminalAlloc now a r = Inr (a', r') \<Longrightarrow>
   ClientStatus a' = ClientStatus a \<and> AllocJob a' = AllocJob a \<and> TaskGroup a' = TaskGroup a"
  by (auto simp: finalizeTerminalAlloc_def Let_def split: if_splits option.splits)

text \<open>
  Claim C7. Whenever the client status of the snapshot is terminal,
  \<^verbatim>\<open>finalizeTerminalAlloc\<close> is to give every task of the task group a task state with
  a finishing time. The source does not: when the job lacks the task group of the
  allocation, \<^verbatim>\<open>finalizeTerminalAlloc\<close> panics on a terminal snapshot. \<^verbatim>\<open>Run\<close>
  makes that snapshot itself: on a missing task group it sets the status to failed,
  and the next \<^verbatim>\<open>Alloc\<close>, as in \<^verbatim>\<open>syncStatus\<close> and \<^verbatim>\<open>saveAllocRunnerState\<close>,
  panics. \<^verbatim>\<open>Run\<close> and \<^verbatim>\<open>RestoreState\<close> test the task group against \<^verbatim>\<open>nil\<close>;
  \<^verbatim>\<open>finalizeTerminalAlloc\<close> does not.
\<close>

theorem finalizeTerminalAlloc_missing_group_panics:
  "LookupTaskGroup (AllocJob missingGroupAlloc) (TaskGroup missingGroupAlloc) = None \<and>
   ClientTerminalStatus (missingGroupAlloc\<lparr>ClientStatus := AllocClientStatusFailed\<rparr>) \<and>
   finalizeTerminalAlloc 9 (missingGroupAlloc\<lparr>ClientStatus := AllocClientStatusFailed\<rparr>)
     missingGroupRunner = Inl Panic \<and>
   Alloc 9 failedMissingGroupRunner = Inl Panic \<and>
   saveAllocRunnerState okEnv 9 failedMissingGroupRunner = (Some Panic, failedMissingGroupRunner)"
proof -
  have lookup: "LookupTaskGroup (AllocJob missingGroupAlloc) (TaskGroup missingGroupAlloc) = None"
    by (simp add: LookupTaskGroup_def missingGroupAlloc_def exampleAlloc_def exampleJob_def)
  have composed: "composeAlloc failedMissingGroupRunner =
      missingGroupAlloc\<lparr>ClientStatus := AllocClientStatusFailed,
        ClientDescription := ''missing task group '' @ [CHR 0x27] @ ''g2'' @ [CHR 0x27],
        TaskStates := []\<rparr>"
    by (simp add: composeAlloc_def failedMissingGroupRunner_def missingGroupRunner_def
        setStatus_def NewAllocRunner_def copyTaskStates_def missingGroupAlloc_def
        exampleAlloc_def structs_consts)
  have terminal: "ClientTerminalStatus (composeAlloc failedMissingGroupRunner)"
    unfolding composed by (simp add: ClientTerminalStatus_def)
  have group: "LookupTaskGroup (AllocJob (composeAlloc failedMissingGroupRunner))
      (TaskGroup (composeAlloc failedMissingGroupRunner)) = None"
    unfolding composed using lookup by simp
  have panic: "finalizeTerminalAlloc 9 (composeAlloc failedMissingGroupRunner)
      failedMissingGroupRunner = Inl Panic"
    using terminal group by (rule finalizeTerminalAlloc_missing_group)
  have live: "\<not> ctxCanceled failedMissingGroupRunner"
    by (simp add: failedMissingGroupRunner_def missingGroupRunner_def setStatus_def
        NewAllocRunner_def)
  have alloc: "Alloc 9 failedMissingGroupRunner = Inl Panic"
    using panic by (simp add: Alloc_def)
  have save: "saveAllocRunnerState okEnv 9 failedMissingGroupRunner =
      (Some Panic, failedMissingGroupRunner)"
    using live alloc by (rule save_panic)
  have terminal': "ClientTerminalStatus (missingGroupAlloc\<lparr>ClientStatus := AllocClientStatusFailed\<rparr>)"
    by (simp add: ClientTerminalStatus_def)
  have panic': "finalizeTerminalAlloc 9 (missingGroupAlloc\<lparr>ClientStatus := AllocClientStatusFailed\<rparr>)
      missingGroupRunner = Inl Panic"
    using terminal' lookup by (simp add: finalizeTerminalAlloc_missing_group)
  show ?thesis
    using lookup terminal' panic' alloc save by blast
qed

text \<open>
  Where the job has the task group of the allocation, the finishing times are as the
  specification says. When the client status of the snapshot is not terminal,
  \<^verbatim>\<open>finalizeTerminalAlloc\<close> changes nothing. When it is terminal (complete or failed)
  and the job has the task group, \<^verbatim>\<open>finalizeTerminalAlloc\<close> returns, and in the
  snapshot every task of the group has a task state: the one it had, or an empty one,
  with the finishing time set to \<open>now\<close> if it was zero, hence a finishing time that is
  not zero (the clock never reads zero). The same holds of the snapshot that \<^verbatim>\<open>Alloc\<close>
  composes.
\<close>

theorem finalizeTerminalAlloc_finished:
  "(\<not> ClientTerminalStatus a \<longrightarrow> finalizeTerminalAlloc now a r = Inr (a, r)) \<and>
   (ClientTerminalStatus a \<longrightarrow> LookupTaskGroup (AllocJob a) (TaskGroup a) = Some tg \<longrightarrow>
      (\<exists>a' r'. finalizeTerminalAlloc now a r = Inr (a', r') \<and>
         TaskStates a' = taskStates r' \<and>
         (\<forall>t \<in> set (Tasks tg).
            map_of (TaskStates a') (Name t) =
              Some (finished now (stateOrEmpty (taskStates r) (Name t)))) \<and>
         (\<not> IsZero now \<longrightarrow>
            (\<forall>t \<in> set (Tasks tg). \<exists>ts.
               map_of (TaskStates a') (Name t) = Some ts \<and> \<not> IsZero (FinishedAt ts))))) \<and>
   (Alloc now r = Inr (a2, r2) \<longrightarrow> ClientTerminalStatus a2 \<longrightarrow>
    LookupTaskGroup (AllocJob (alloc r)) (TaskGroup (alloc r)) = Some tg \<longrightarrow> \<not> IsZero now \<longrightarrow>
      (\<forall>t \<in> set (Tasks tg). \<exists>ts.
         map_of (TaskStates a2) (Name t) = Some ts \<and> \<not> IsZero (FinishedAt ts)))"
proof -
  have early: "\<not> ClientTerminalStatus a \<longrightarrow> finalizeTerminalAlloc now a r = Inr (a, r)"
    by (simp add: finalizeTerminalAlloc_def)
  have fin: "\<exists>a' r'. finalizeTerminalAlloc now x r = Inr (a', r') \<and>
         TaskStates a' = taskStates r' \<and>
         (\<forall>t \<in> set (Tasks tg).
            map_of (TaskStates a') (Name t) =
              Some (finished now (stateOrEmpty (taskStates r) (Name t)))) \<and>
         (\<not> IsZero now \<longrightarrow>
            (\<forall>t \<in> set (Tasks tg). \<exists>ts.
               map_of (TaskStates a') (Name t) = Some ts \<and> \<not> IsZero (FinishedAt ts)))"
    if "ClientTerminalStatus x" "LookupTaskGroup (AllocJob x) (TaskGroup x) = Some tg" for x
    unfolding finalizeTerminalAlloc_terminal [OF that]
    by (simp add: finishTasks_map_of finished_nonzero)
  have snap: "\<forall>t \<in> set (Tasks tg). \<exists>ts.
         map_of (TaskStates a2) (Name t) = Some ts \<and> \<not> IsZero (FinishedAt ts)"
    if A: "Alloc now r = Inr (a2, r2)" and T: "ClientTerminalStatus a2"
      and L: "LookupTaskGroup (AllocJob (alloc r)) (TaskGroup (alloc r)) = Some tg"
      and nz: "\<not> IsZero now"
  proof -
    have f: "finalizeTerminalAlloc now (composeAlloc r) r = Inr (a2, r2)"
      using A by (simp add: Alloc_def)
    have "ClientTerminalStatus (composeAlloc r)"
      using finalizeTerminalAlloc_fields [OF f] T by (simp add: ClientTerminalStatus_def)
    moreover have "LookupTaskGroup (AllocJob (composeAlloc r)) (TaskGroup (composeAlloc r)) = Some tg"
      using L by (simp add: composeAlloc_fields)
    ultimately show ?thesis
      using fin [of "composeAlloc r"] f nz by auto
  qed
  show ?thesis
    using early fin [of a] snap by blast
qed

theorem finalizeTerminalAlloc_finished_witness:
  "finalizeTerminalAlloc 9 (exampleAlloc\<lparr>ClientStatus := ''failed''\<rparr>) exampleRunner =
     Inr (exampleAlloc\<lparr>ClientStatus := ''failed'',
            TaskStates := [(''t1'', emptyTaskState\<lparr>FinishedAt := 9\<rparr>),
                           (''t2'', emptyTaskState\<lparr>FinishedAt := 9\<rparr>)]\<rparr>,
          exampleRunner\<lparr>taskStates := [(''t1'', emptyTaskState\<lparr>FinishedAt := 9\<rparr>),
                                        (''t2'', emptyTaskState\<lparr>FinishedAt := 9\<rparr>)]\<rparr>) \<and>
   finalizeTerminalAlloc 9 exampleAlloc exampleRunner = Inr (exampleAlloc, exampleRunner)"
proof -
  let ?failed = "exampleAlloc\<lparr>ClientStatus := ''failed''\<rparr>"
  let ?g1 = "\<lparr>GroupName = ''g1'',
      Tasks = [\<lparr>Name = ''t1'', Leader = True\<rparr>, \<lparr>Name = ''t2'', Leader = False\<rparr>]\<rparr>"
  have terminal: "ClientTerminalStatus ?failed" "\<not> ClientTerminalStatus exampleAlloc"
    by (simp_all add: ClientTerminalStatus_def structs_consts exampleAlloc_def)
  have lookup: "LookupTaskGroup (AllocJob ?failed) (TaskGroup ?failed) = Some ?g1"
    by (simp add: LookupTaskGroup_def example_defs)
  have clock: "\<not> IsZero 9"
    by (simp add: IsZero_def)
  have "\<exists>a' r'. finalizeTerminalAlloc 9 ?failed exampleRunner = Inr (a', r') \<and>
      (\<forall>t \<in> set (Tasks ?g1). \<exists>ts.
          map_of (TaskStates a') (Name t) = Some ts \<and> \<not> IsZero (FinishedAt ts))"
    using finalizeTerminalAlloc_finished [of ?failed 9 exampleRunner ?g1] terminal(1) lookup clock
    by blast
  moreover have "finalizeTerminalAlloc 9 exampleAlloc exampleRunner = Inr (exampleAlloc, exampleRunner)"
    using finalizeTerminalAlloc_finished [of exampleAlloc 9 exampleRunner ?g1] terminal(2)
    by blast
  moreover have "finalizeTerminalAlloc 9 ?failed exampleRunner =
     Inr (exampleAlloc\<lparr>ClientStatus := ''failed'',
            TaskStates := [(''t1'', emptyTaskState\<lparr>FinishedAt := 9\<rparr>),
                           (''t2'', emptyTaskState\<lparr>FinishedAt := 9\<rparr>)]\<rparr>,
          exampleRunner\<lparr>taskStates := [(''t1'', emptyTaskState\<lparr>FinishedAt := 9\<rparr>),
                                        (''t2'', emptyTaskState\<lparr>FinishedAt := 9\<rparr>)]\<rparr>)"
    by (simp add: alloc_defs example_defs LookupTaskGroup_def finishTask_def emptyTaskState_def
        IsZero_def)
  ultimately show ?thesis by blast
qed

section \<open>Properties of setTaskState\<close>

lemma appendTaskEvent_fields:
  "State (appendTaskEvent ts e) = State ts" "Failed (appendTaskEvent ts e) = Failed ts"
  "FinishedAt (appendTaskEvent ts e) = FinishedAt ts"
  by (simp_all add: appendTaskEvent_def Let_def)

lemma recordEvent_State: "State (recordEvent e ts) = State ts"
  by (simp add: recordEvent_def Let_def appendTaskEvent_fields)

lemma recordedTaskState_State:
  "State (recordedTaskState taskName event r) =
     (case map_of (taskStates r) taskName of None \<Rightarrow> '''' | Some ts \<Rightarrow> State ts)"
  by (simp add: recordedTaskState_def Let_def recordEvent_State emptyTaskState_def
      split: option.splits)

lemma destroyOthers_map_of:
  "map_of (destroyOthers taskName ev trs) n =
     (if n = taskName then map_of trs n
      else map_option (\<lambda>tr. tr\<lparr>calls := calls tr @ [CallDestroy ev]\<rparr>) (map_of trs n))"
  by (induction trs) (auto simp: destroyOthers_def Destroy_runner_def received_def)

lemma destroyOthers_names: "map fst (destroyOthers taskName ev trs) = map fst trs"
  by (induction trs) (auto simp: destroyOthers_def)

lemma isLeaderTask_iff:
  "isLeaderTask taskName trs \<longleftrightarrow> (\<exists>tr. (taskName, tr) \<in> set trs \<and> Leader (task tr))"
  by (induction trs) (auto simp: isLeaderTask_def IsLeader_def)

lemma setTaskState_dead:
  assumes "stateToRecord state (recordedTaskState taskName event r) = TaskStateDead"
  shows "tasks (setTaskState now taskName state event False r) =
       (if Failed (recordedTaskState taskName event r)
        then destroyOthers taskName
               (SetFailedSibling taskName (NewTaskEvent now TaskSiblingFailed)) (tasks r)
        else if isLeaderTask taskName (tasks r)
        then destroyOthers taskName (NewTaskEvent now TaskLeaderDead) (tasks r)
        else tasks r)"
    and "taskStateOf (setTaskState now taskName state event False r) taskName = Some TaskStateDead"
  using assms
  by (simp_all add: setTaskState_def Let_def taskStateOf_def update_conv' structs_consts)

text \<open>
  Claim C3. When a call of \<^verbatim>\<open>setTaskState\<close> that is not lazy records the state dead
  for a task: if the \<open>Failed\<close> flag of the task is set, every other task runner
  receives \<^verbatim>\<open>Destroy\<close> with a \<open>TaskSiblingFailed\<close> event that carries the name of the
  dead task; otherwise, if the runner of the dead task is a leader, every other task
  runner receives \<^verbatim>\<open>Destroy\<close> with a \<open>TaskLeaderDead\<close> event; otherwise the task
  runners are left as they are. The runner of the dead task itself receives nothing.
\<close>

theorem sibling_and_leader_cascade:
  "(stateToRecord state (recordedTaskState taskName event r) = TaskStateDead \<longrightarrow>
      taskStateOf (setTaskState now taskName state event False r) taskName = Some TaskStateDead \<and>
      tasks (setTaskState now taskName state event False r) =
        (if Failed (recordedTaskState taskName event r)
         then destroyOthers taskName
                (SetFailedSibling taskName (NewTaskEvent now TaskSiblingFailed)) (tasks r)
         else if isLeaderTask taskName (tasks r)
         then destroyOthers taskName (NewTaskEvent now TaskLeaderDead) (tasks r)
         else tasks r)) \<and>
   Type (SetFailedSibling taskName (NewTaskEvent now TaskSiblingFailed)) = TaskSiblingFailed \<and>
   FailedSibling (SetFailedSibling taskName (NewTaskEvent now TaskSiblingFailed)) = taskName \<and>
   Type (NewTaskEvent now TaskLeaderDead) = TaskLeaderDead \<and>
   map fst (destroyOthers taskName ev trs) = map fst trs \<and>
   map_of (destroyOthers taskName ev trs) n =
     (if n = taskName then map_of trs n
      else map_option (\<lambda>tr. tr\<lparr>calls := calls tr @ [CallDestroy ev]\<rparr>) (map_of trs n)) \<and>
   (isLeaderTask taskName trs \<longleftrightarrow> (\<exists>tr. (taskName, tr) \<in> set trs \<and> Leader (task tr)))"
  using setTaskState_dead [of state taskName event r now]
    destroyOthers_map_of [of taskName ev trs n] destroyOthers_names [of taskName ev trs]
    isLeaderTask_iff [of taskName trs]
  by (simp add: SetFailedSibling_def NewTaskEvent_def)

theorem sibling_and_leader_cascade_witness:
  "map_of (tasks (setTaskState 7 ''t1'' ''dead''
       (Some \<lparr>Type = ''Terminated'', Time = 0, FailsTask = True, FailedSibling = ''''\<rparr>)
       False runningRunner)) ''t2'' =
     Some \<lparr>task = \<lparr>Name = ''t2'', Leader = False\<rparr>,
           calls = [CallMarkReceived, CallRun,
             CallDestroy \<lparr>Type = ''TaskSiblingFailed'', Time = UnixNano 7, FailsTask = False,
               FailedSibling = ''t1''\<rparr>]\<rparr> \<and>
   map_of (tasks (setTaskState 7 ''t1'' ''dead'' None False runningRunner)) ''t2'' =
     Some \<lparr>task = \<lparr>Name = ''t2'', Leader = False\<rparr>,
           calls = [CallMarkReceived, CallRun,
             CallDestroy \<lparr>Type = ''TaskLeaderDead'', Time = UnixNano 7, FailsTask = False,
               FailedSibling = ''''\<rparr>]\<rparr> \<and>
   tasks (setTaskState 7 ''t2'' ''dead'' None False runningRunner) = tasks runningRunner"
proof -
  let ?fails = "Some \<lparr>Type = ''Terminated'', Time = 0, FailsTask = True, FailedSibling = ''''\<rparr>"
  have dead: "stateToRecord ''dead'' (recordedTaskState n e runningRunner) = TaskStateDead" for n e
    by (simp add: stateToRecord_def structs_consts)
  have failed: "Failed (recordedTaskState ''t1'' ?fails runningRunner)"
    "\<not> Failed (recordedTaskState n None runningRunner)" for n
    by (simp_all add: recordedTaskState_def recordEvent_def appendTaskEvent_def Let_def
        runningRunner_def example_defs copyTaskStates_def emptyTaskState_def)
  have leader: "isLeaderTask ''t1'' (tasks runningRunner)"
    "\<not> isLeaderTask ''t2'' (tasks runningRunner)"
    by (simp_all add: isLeaderTask_def IsLeader_def runningRunner_def)
  have s2: "tasks (setTaskState 7 ''t1'' ''dead'' ?fails False runningRunner) =
      destroyOthers ''t1'' (SetFailedSibling ''t1'' (NewTaskEvent 7 TaskSiblingFailed))
        (tasks runningRunner)"
    using sibling_and_leader_cascade [of "''dead''" "''t1''" ?fails runningRunner 7] dead failed(1)
    by simp
  have s1: "tasks (setTaskState 7 ''t1'' ''dead'' None False runningRunner) =
      destroyOthers ''t1'' (NewTaskEvent 7 TaskLeaderDead) (tasks runningRunner)"
    using sibling_and_leader_cascade [of "''dead''" "''t1''" None runningRunner 7] dead failed(2)
      leader(1)
    by simp
  have s0: "tasks (setTaskState 7 ''t2'' ''dead'' None False runningRunner) = tasks runningRunner"
    using sibling_and_leader_cascade [of "''dead''" "''t2''" None runningRunner 7] dead failed(2)
      leader(2)
    by simp
  show ?thesis
    unfolding s2 s1 s0
    by (simp add: destroyOthers_def Destroy_runner_def received_def runningRunner_def
        SetFailedSibling_def NewTaskEvent_def structs_consts)
qed

lemma setTaskState_taskStateOf:
  "taskStateOf (setTaskState now taskName state event lazySync r) taskName =
     Some (if lazySync then State (recordedTaskState taskName event r)
           else stateToRecord state (recordedTaskState taskName event r))"
  by (simp add: setTaskState_def Let_def taskStateOf_def update_conv')

lemma setTaskState_taskStateOf_other:
  "other \<noteq> taskName \<Longrightarrow>
   taskStateOf (setTaskState now other state event lazySync r) taskName = taskStateOf r taskName"
  by (simp add: setTaskState_def Let_def taskStateOf_def update_conv')

lemma composeAlloc_TaskStates: "TaskStates (composeAlloc r) = taskStates r"
  by (simp add: composeAlloc_def Let_def copyTaskStates_id split: option.splits)

lemma Alloc_keeps_State:
  assumes "Alloc now r = Inr (a, r')" and "map_of (taskStates r) n = Some ts"
  shows "map_option State (map_of (TaskStates a) n) = Some (State ts)"
    and "taskStateOf r' n = Some (State ts)"
proof -
  let ?c = "composeAlloc r"
  have f: "finalizeTerminalAlloc now ?c r = Inr (a, r')"
    using assms(1) by (simp add: Alloc_def)
  have "map_option State (map_of (TaskStates a) n) = Some (State ts) \<and>
      taskStateOf r' n = Some (State ts)"
  proof (cases "ClientTerminalStatus ?c")
    case False
    with f have "a = ?c" "r' = r"
      by (auto simp: finalizeTerminalAlloc_def)
    then show ?thesis
      by (simp add: composeAlloc_TaskStates assms(2) taskStateOf_def)
  next
    case True
    show ?thesis
    proof (cases "LookupTaskGroup (AllocJob ?c) (TaskGroup ?c)")
      case None
      with True f show ?thesis
        by (simp add: finalizeTerminalAlloc_def)
    next
      case (Some tg)
      from f show ?thesis
        unfolding finalizeTerminalAlloc_terminal [OF True Some]
        by (auto simp: finishTasks_map_of taskStateOf_def stateOrEmpty_def assms(2) finished_State)
    qed
  qed
  then show "map_option State (map_of (TaskStates a) n) = Some (State ts)"
    and "taskStateOf r' n = Some (State ts)"
    by simp_all
qed

text \<open>
  Claim C2 says that a task whose recorded state is dead is never shown as running or
  pending again, by any later call of \<^verbatim>\<open>setTaskState\<close> or any later snapshot. The
  source has no such guard: \<^verbatim>\<open>setTaskState\<close> stores the state it is passed. Here the
  leader \<open>t1\<close> is recorded dead, a later call passes \<open>running\<close>, and both the runner and
  the next snapshot show \<open>t1\<close> as running.
\<close>

theorem dead_task_revived_counterexample:
  "taskStateOf (setTaskState 5 ''t1'' ''dead'' None False runningRunner) ''t1'' = Some ''dead'' \<and>
   taskStateOf
     (setTaskState 9 ''t1'' ''running'' None False
        (setTaskState 5 ''t1'' ''dead'' None False runningRunner)) ''t1'' = Some ''running'' \<and>
   snapshotStateOf 10
     (setTaskState 9 ''t1'' ''running'' None False
        (setTaskState 5 ''t1'' ''dead'' None False runningRunner)) ''t1'' = Some ''running''"
  by (simp add: setTaskState_def recordedTaskState_def stateToRecord_def taskStateOf_def
      snapshotStateOf_def isLeaderTask_def IsLeader_def destroyOthers_def otherTaskNames_def
      Destroy_runner_def received_def IsZero_def emptyTaskState_def runningRunner_def
      alloc_defs example_defs)

text \<open>
  Claim C2, amended. Once the recorded state of a task is dead, a call of
  \<^verbatim>\<open>setTaskState\<close> for that task leaves it dead when the call is lazy or passes no
  state, and otherwise records the state it is passed (dead stays dead only if dead is
  passed); a call for another task leaves it dead; and \<^verbatim>\<open>Alloc\<close> shows it dead in the
  snapshot and leaves it dead in the runner.
\<close>

theorem dead_stays_dead_unless_overwritten:
  "taskStateOf r taskName = Some TaskStateDead \<longrightarrow>
     taskStateOf (setTaskState now taskName state event lazySync r) taskName =
       Some (if lazySync \<or> state = '''' then TaskStateDead else state) \<and>
     (other \<noteq> taskName \<longrightarrow>
        taskStateOf (setTaskState now other state event lazySync r) taskName =
          Some TaskStateDead) \<and>
     (Alloc now r = Inr (a, r') \<longrightarrow>
        snapshotStateOf now r taskName = Some TaskStateDead \<and>
        taskStateOf r' taskName = Some TaskStateDead)"
proof
  assume dead: "taskStateOf r taskName = Some TaskStateDead"
  then obtain ts where ts: "map_of (taskStates r) taskName = Some ts" "State ts = TaskStateDead"
    by (auto simp: taskStateOf_def)
  have rec: "State (recordedTaskState taskName event r) = TaskStateDead"
    by (simp add: recordedTaskState_State ts)
  have same: "taskStateOf (setTaskState now taskName state event lazySync r) taskName =
       Some (if lazySync \<or> state = '''' then TaskStateDead else state)"
    unfolding setTaskState_taskStateOf
    by (simp add: rec stateToRecord_def structs_consts)
  have others: "other \<noteq> taskName \<longrightarrow>
        taskStateOf (setTaskState now other state event lazySync r) taskName =
          Some TaskStateDead"
    by (simp add: setTaskState_taskStateOf_other dead)
  have snap: "snapshotStateOf now r taskName = Some TaskStateDead \<and>
        taskStateOf r' taskName = Some TaskStateDead" if "Alloc now r = Inr (a, r')"
    using Alloc_keeps_State [OF that ts(1)] that
    by (simp add: snapshotStateOf_def ts(2))
  show "taskStateOf (setTaskState now taskName state event lazySync r) taskName =
       Some (if lazySync \<or> state = '''' then TaskStateDead else state) \<and>
     (other \<noteq> taskName \<longrightarrow>
        taskStateOf (setTaskState now other state event lazySync r) taskName =
          Some TaskStateDead) \<and>
     (Alloc now r = Inr (a, r') \<longrightarrow>
        snapshotStateOf now r taskName = Some TaskStateDead \<and>
        taskStateOf r' taskName = Some TaskStateDead)"
    using same others snap by blast
qed

theorem dead_stays_dead_unless_overwritten_witness:
  "taskStateOf
     (setTaskState 9 ''t1'' '''' (Some (NewTaskEvent 9 TaskKilled)) False
        (setTaskState 5 ''t1'' ''dead'' None False runningRunner)) ''t1'' = Some ''dead'' \<and>
   taskStateOf
     (setTaskState 9 ''t1'' ''pending'' None True
        (setTaskState 5 ''t1'' ''dead'' None False runningRunner)) ''t1'' = Some ''dead'' \<and>
   taskStateOf
     (setTaskState 9 ''t2'' ''running'' None False
        (setTaskState 5 ''t1'' ''dead'' None False runningRunner)) ''t1'' = Some ''dead'' \<and>
   snapshotStateOf 10 (setTaskState 5 ''t1'' ''dead'' None False runningRunner) ''t1'' =
     Some ''dead''"
proof -
  let ?d = "setTaskState 5 ''t1'' ''dead'' None False runningRunner"
  have dead: "taskStateOf ?d ''t1'' = Some TaskStateDead"
    by (simp add: setTaskState_taskStateOf stateToRecord_def structs_consts)
  have ok: "Alloc 10 ?d = Inr (fst (projr (Alloc 10 ?d)), snd (projr (Alloc 10 ?d)))"
    by (simp add: setTaskState_def recordedTaskState_def stateToRecord_def
      isLeaderTask_def IsLeader_def destroyOthers_def otherTaskNames_def
      Destroy_runner_def received_def IsZero_def emptyTaskState_def runningRunner_def
      alloc_defs example_defs)
  have t2: "''t2'' \<noteq> ''t1''" by simp
  from dead_stays_dead_unless_overwritten
      [of ?d "''t1''" 9 "''''" "Some (NewTaskEvent 9 TaskKilled)" False "''t2''" _ _] dead
    dead_stays_dead_unless_overwritten
      [of ?d "''t1''" 9 "''pending''" None True "''t2''" _ _] dead
    dead_stays_dead_unless_overwritten
      [of ?d "''t1''" 9 "''running''" None False "''t2''" _ _] dead t2
    dead_stays_dead_unless_overwritten
      [of ?d "''t1''" 10 "''running''" None False "''t2''"
         "fst (projr (Alloc 10 ?d))" "snd (projr (Alloc 10 ?d))"] dead ok
  show ?thesis
    by (simp add: structs_consts)
qed

section \<open>Properties of RestoreState\<close>

lemma readState_Inr:
  assumes "readState r = Inr r1"
  shows "\<exists>bkt status desc states ds.
      buckets (stateDB r) (allocID r) = Some bkt \<and>
      bkt allocRunnerStateMutableKey = Some (MutableState status desc states ds) \<and>
      taskStates r1 = states \<and> tasks r1 = tasks r"
proof -
  obtain bkt where bkt: "buckets (stateDB r) (allocID r) = Some bkt"
    using assms by (cases "buckets (stateDB r) (allocID r)") (simp_all add: readState_def)
  obtain allocState where a: "bkt allocRunnerStateAllocKey = Some (AllocState allocState)"
    using assms bkt
    by (auto simp: readState_def split: option.splits obj.splits)
  obtain version where i: "bkt allocRunnerStateImmutableKey = Some (ImmutableState version)"
    using assms bkt a
    by (auto simp: readState_def split: option.splits obj.splits)
  obtain status desc states ds where
    m: "bkt allocRunnerStateMutableKey = Some (MutableState status desc states ds)"
    using assms bkt a i
    by (auto simp: readState_def split: option.splits obj.splits)
  obtain dir where d: "bkt allocRunnerStateAllocDirKey = Some (AllocDirState dir)"
    using assms bkt a i m
    by (auto simp: readState_def split: option.splits obj.splits)
  have "taskStates r1 = states \<and> tasks r1 = tasks r"
    using assms bkt a i m d
    by (auto simp: readState_def split: option.splits)
  with bkt m show ?thesis by blast
qed

lemma restoreTask_keeps:
  assumes dead: "taskStateOf r name = Some TaskStateDead"
    and step: "restoreTask trRestore now t (r, mErr) = Inr (r', mErr')"
  shows "taskStateOf r' name = Some TaskStateDead \<and> map_of (tasks r') name = map_of (tasks r) name"
proof (cases "map_of (taskStates r) (Name t)")
  case None
  with step have "r' = r"
    by (simp add: restoreTask_def)
  with dead show ?thesis by simp
next
  case (Some state)
  obtain dir where dir: "allocDir r = Some dir"
    using step Some by (cases "allocDir r") (simp_all add: restoreTask_def)
  define r2 where "r2 =
    (case map_of (TaskDirs dir) (Name t) of
       Some td \<Rightarrow> r\<lparr>restored := insert (Name t) (restored r)\<rparr>
     | None \<Rightarrow> r\<lparr>restored := insert (Name t) (restored r),
                  allocDir := Some (snd (NewTaskDir (Name t) dir))\<rparr>)"
  have r2: "taskStates r2 = taskStates r" "tasks r2 = tasks r"
    by (simp_all add: r2_def split: option.splits)
  have dead2: "taskStateOf r2 name = Some TaskStateDead"
    using dead by (simp add: taskStateOf_def r2)
  show ?thesis
  proof (cases "State state = TaskStateDead")
    case True
    with step Some dir have "r' = r2"
      by (simp add: restoreTask_def Let_def r2_def split: option.splits)
    with dead2 r2 show ?thesis by simp
  next
    case False
    have other: "Name t \<noteq> name"
      using dead Some False by (auto simp: taskStateOf_def)
    have "\<exists>a r3. Alloc now r2 = Inr (a, r3) \<and> taskStates r' = taskStates r3 \<and>
        map_of (tasks r') name = map_of (tasks r3) name"
      using step Some dir False other
      by (auto simp: restoreTask_def Let_def r2_def andThen_def update_conv'
          split: option.splits sum.splits if_splits)
    then obtain a r3 where A: "Alloc now r2 = Inr (a, r3)"
      and upd: "taskStates r' = taskStates r3"
        "map_of (tasks r') name = map_of (tasks r3) name"
      by blast
    obtain ts where ts: "map_of (taskStates r2) name = Some ts" "State ts = TaskStateDead"
      using dead2 by (auto simp: taskStateOf_def)
    have dead3: "taskStateOf r3 name = Some TaskStateDead"
      using Alloc_keeps_State(2) [OF A ts(1)] ts(2) by simp
    have frame: "r3 = r2\<lparr>taskStates := taskStates r3\<rparr>"
      using A by (rule Alloc_frame)
    have "tasks r3 = tasks r2"
      by (subst frame, simp)
    then have tasks3: "tasks r3 = tasks r" by (simp add: r2)
    show ?thesis
      using dead3 upd tasks3 by (simp add: taskStateOf_def)
  qed
qed

lemma restoreTasks_keeps:
  "taskStateOf r name = Some TaskStateDead \<Longrightarrow>
   restoreTasks trRestore now ts (r, mErr) = Inr (r', mErr') \<Longrightarrow>
   taskStateOf r' name = Some TaskStateDead \<and> map_of (tasks r') name = map_of (tasks r) name"
proof (induction ts arbitrary: r mErr)
  case Nil
  then show ?case by simp
next
  case (Cons t ts)
  from Cons.prems(2) obtain r1 m1 where
    one: "restoreTask trRestore now t (r, mErr) = Inr (r1, m1)"
    and rest: "restoreTasks trRestore now ts (r1, m1) = Inr (r', mErr')"
    by (auto simp: andThen_def split: sum.splits)
  have k1: "taskStateOf r1 name = Some TaskStateDead"
    "map_of (tasks r1) name = map_of (tasks r) name"
    using restoreTask_keeps [OF Cons.prems(1) one] by simp_all
  from Cons.IH [OF k1(1) rest] k1(2) show ?case by simp
qed

text \<open>
  Claim C8. When the mutable record of the persisted state holds a task with state
  dead, \<^verbatim>\<open>RestoreState\<close>, whatever it returns, leaves the task runners without a new
  one for that task: the entry of the task in \<^verbatim>\<open>r.tasks\<close> is as before the call, and
  a runner made by \<^verbatim>\<open>NewAllocRunner\<close> has no task runners before the call.
\<close>

theorem restore_skips_dead_tasks:
  "(buckets (stateDB r) (allocID r) = Some bkt \<longrightarrow>
    bkt allocRunnerStateMutableKey = Some (MutableState status desc states ds) \<longrightarrow>
    map_option State (map_of states name) = Some TaskStateDead \<longrightarrow>
      map_of (tasks (snd (RestoreState trRestore now r))) name = map_of (tasks r) name) \<and>
   tasks (NewAllocRunner v root db a) = []"
proof -
  have keep: "map_of (tasks (snd (RestoreState trRestore now r))) name = map_of (tasks r) name"
    if b: "buckets (stateDB r) (allocID r) = Some bkt"
      and m: "bkt allocRunnerStateMutableKey = Some (MutableState status desc states ds)"
      and d: "map_option State (map_of states name) = Some TaskStateDead"
  proof (cases "readState r")
    case (Inl e)
    then show ?thesis
      by (cases e) (simp_all add: RestoreState_def)
  next
    case (Inr r1)
    from readState_Inr [OF Inr] b m have r1: "taskStates r1 = states" "tasks r1 = tasks r"
      by auto
    have dead1: "taskStateOf r1 name = Some TaskStateDead"
      using d by (simp add: taskStateOf_def r1)
    show ?thesis
    proof (cases "allocDir r1 = None")
      case True
      with Inr r1 show ?thesis by (simp add: RestoreState_def)
    next
      case dir: False
      show ?thesis
      proof (cases "LookupTaskGroup (AllocJob (alloc r1)) (TaskGroup (alloc r1))")
        case None
        with Inr dir r1 show ?thesis by (auto simp: RestoreState_def)
      next
        case (Some tg)
        show ?thesis
        proof (cases "restoreTasks trRestore now (Tasks tg) (r1, [])")
          case (Inl e)
          with Inr dir Some show ?thesis by (auto simp: RestoreState_def)
        next
          case loop: (Inr p)
          obtain r2 mErr where p: "p = (r2, mErr)" by (cases p)
          from restoreTasks_keeps [OF dead1 loop [unfolded p]] r1
          have "map_of (tasks r2) name = map_of (tasks r) name" by simp
          with Inr dir Some loop p show ?thesis by (auto simp: RestoreState_def)
        qed
      qed
    qed
  qed
  show ?thesis
    using keep by (simp add: NewAllocRunner_def)
qed

theorem restore_skips_dead_tasks_witness:
  "fst (RestoreState (\<lambda>n. Inr '''') 20 crashedRunner) = None \<and>
   map_of (tasks (snd (RestoreState (\<lambda>n. Inr '''') 20 crashedRunner))) ''t1'' = None \<and>
   map fst (tasks (snd (RestoreState (\<lambda>n. Inr '''') 20 crashedRunner))) = [''t2'']"
proof -
  have b: "buckets (stateDB crashedRunner) (allocID crashedRunner) = Some crashedBucket"
    by (simp add: crashedRunner_def crashedDB_def example_defs)
  have m: "crashedBucket allocRunnerStateMutableKey =
      Some (MutableState '''' '''' crashedTaskStates None)"
    by (simp add: crashedBucket_def state_keys)
  have d: "map_option State (map_of crashedTaskStates ''t1'') = Some TaskStateDead"
    by (simp add: crashedTaskStates_def structs_consts)
  have none: "map_of (tasks crashedRunner) ''t1'' = None"
    by (simp add: crashedRunner_def example_defs)
  have t1: "map_of (tasks (snd (RestoreState (\<lambda>n. Inr '''') 20 crashedRunner))) ''t1'' = None"
    using restore_skips_dead_tasks [of crashedRunner crashedBucket "''''" "''''"
        crashedTaskStates None "''t1''" "\<lambda>n. Inr ''''" 20] b m d none
    by simp
  have run: "fst (RestoreState (\<lambda>n. Inr '''') 20 crashedRunner) = None \<and>
      map fst (tasks (snd (RestoreState (\<lambda>n. Inr '''') 20 crashedRunner))) = [''t2'']"
    by (simp add: RestoreState_def readState_def restoreTask_def andThen_def NewTaskDir_def
        NewTaskRunner_def received_def Destroy_runner_def TerminalStatus_def
        crashedRunner_def crashedDB_def crashedBucket_def crashedTaskStates_def state_keys
        alloc_defs example_defs)
  from t1 run show ?thesis by simp
qed

end
